theory Spec2Isabelle
  imports
    Complex_Main
    "HOL-Library.Sublist"
    "HOL-Library.Char_ord"
    "HOL-Library.List_Lexorder"
    "HOL-Library.Product_Lexorder"
    "HOL-Library.Multiset"
begin

section \<open>Python values shared by the four modules\<close>

text \<open>
  The exceptions the modelled code can raise. \<open>FrameworkError\<close> stands for any exception
  raised inside a framework call (a failed insert, a failed submit, a validation error);
  the handlers of the source catch \<open>Exception\<close> and never look at the class, except for
  \<open>frappe.ValidationError\<close>, which has a constructor of its own.
\<close>

datatype py_error =
    AttributeError
  | KeyError
  | NameError
  | SyntaxError
  | ZeroDivisionError
  | ValidationError
  | FrameworkError string

text \<open>
  \<open>str.lower()\<close> on the ASCII range: the letters \<open>A\<close> to \<open>Z\<close> move to \<open>a\<close> to \<open>z\<close>
  (code point plus 32), every other byte stays. Strings are byte lists (UTF-8). Python
  also lowers letters outside ASCII; these are left as they are here, so for a string with
  such letters the result differs from Python's. Whether the result contains \<open>default\<close>
  is the same: the only characters outside ASCII that Python lowers to an ASCII letter are
  U+0130 and U+212A, which give \<open>i\<close> and \<open>k\<close>.
\<close>

definition lower_char :: "char \<Rightarrow> char" where
  "lower_char c =
     (if CHR ''A'' \<le> c \<and> c \<le> CHR ''Z'' then char_of (of_char c + (32::nat)) else c)"

definition lower :: "string \<Rightarrow> string" where
  "lower s = map lower_char s"

text \<open>Python's \<open>sub in s\<close> on strings: \<open>sub\<close> starts at some position of \<open>s\<close>.\<close>

fun str_contains :: "string \<Rightarrow> string \<Rightarrow> bool" where
  "str_contains sub [] = (sub = [])"
| "str_contains sub (c # cs) = (prefix sub (c # cs) \<or> str_contains sub cs)"


text \<open>Python's \<open>sep.join(xs)\<close>.\<close>

fun str_join :: "string \<Rightarrow> string list \<Rightarrow> string" where
  "str_join sep [] = []"
| "str_join sep [x] = x"
| "str_join sep (x # y # ys) = x @ sep @ str_join sep (y # ys)"

text \<open>
  A Python dictionary as the list of its items, in insertion order. \<open>dict_set\<close> is
  \<open>d[k] = v\<close>: the value of a key already there is replaced in place, a new key is
  appended.
\<close>

fun dict_set :: "'k \<Rightarrow> 'v \<Rightarrow> ('k \<times> 'v) list \<Rightarrow> ('k \<times> 'v) list" where
  "dict_set k v [] = [(k, v)]"
| "dict_set k v ((k', v') # d) = (if k = k' then (k, v) # d else (k', v') # dict_set k v d)"

subsection \<open>Python floats\<close>

text \<open>
  A float is a binary64 number; its value is kept as a rational. \<open>round64\<close> rounds a
  non-negative rational to the nearest binary64 value, ties to the even significand: the
  spacing of the values around \<open>x\<close> is \<open>2 ^ (e - 52)\<close> where \<open>2 ^ e \<le> x < 2 ^ (e + 1)\<close>,
  and never below \<open>2 ^ - 1074\<close>. The top of the range is not modelled: the numbers
  rounded in the report are quotients of a count by a larger count, at most 1, and their
  hundredfold.
\<close>

function bit_length :: "nat \<Rightarrow> nat" where
  "bit_length n = (if n = 0 then 0 else Suc (bit_length (n div 2)))"
  by pat_completeness auto
termination
  by (relation "measure id") auto

definition pow2 :: "int \<Rightarrow> rat" where
  "pow2 e = (if 0 \<le> e then 2 ^ nat e else 1 / 2 ^ nat (- e))"

definition binade :: "rat \<Rightarrow> int" where
  "binade x =
     (if 1 \<le> x then int (bit_length (nat \<lfloor>x\<rfloor>)) - 1
      else - int (bit_length (nat (\<lceil>1 / x\<rceil> - 1))))"

definition round_half_even :: "rat \<Rightarrow> int" where
  "round_half_even x =
     (let n = \<lfloor>x\<rfloor>; d = x - of_int n
      in if d < 1 / 2 then n
         else if 1 / 2 < d then n + 1
         else if even n then n else n + 1)"

definition round64 :: "rat \<Rightarrow> rat" where
  "round64 x =
     (if x = 0 then 0
      else (let ulp = pow2 (max (binade x - 52) (- 1074))
            in of_int (round_half_even (x / ulp)) * ulp))"

section \<open>doc\_events/route.py: the after-insert hook of a route\<close>

record route_doc =
  rd_name :: string
  route_name :: "string option"
  branch :: "string option"

record job_opening =
  job_title :: string
  designation :: string
  jo_status :: string
  posted_on :: string
  company :: string
  custom_travel_route :: string
  location :: "string option"
  route :: string

text \<open>
  The part of the site the hook touches: the Job Opening table, the error log written by
  \<open>frappe.log_error\<close> (title and the error caught) and the number of commits issued.
\<close>

record site =
  job_openings :: "job_opening list"
  error_log :: "(string \<times> py_error) list"
  commits :: nat

definition log_error :: "site \<Rightarrow> string \<Rightarrow> py_error \<Rightarrow> site" where
  "log_error st title e = st\<lparr>error_log := error_log st @ [(title, e)]\<rparr>"

definition new_job_opening :: "string \<Rightarrow> route_doc \<Rightarrow> job_opening" where
  "new_job_opening now doc =
     \<lparr>job_title = ''Vacancy for '' @ rd_name doc,
      designation = ''Delivery Partner'',
      jo_status = ''Open'',
      posted_on = now,
      company = ''SIDS FARM PRIVATE LIMITED'',
      custom_travel_route = rd_name doc,
      location = branch doc,
      route = ''jobs/sids_farm_private_limited/'' @ lower (rd_name doc)\<rparr>"

text \<open>
  \<open>after_insert(doc, method)\<close>. The framework's \<open>insert\<close> of a Job Opening is a parameter
  \<open>ins\<close>: it either raises or returns the site with the record stored. \<open>now\<close> is the
  value of \<open>now_datetime()\<close>. A \<open>route_name\<close> that is \<open>None\<close> makes \<open>.lower()\<close> raise
  AttributeError inside the \<open>try\<close>; every exception ends in \<open>frappe.log_error\<close>.
\<close>

definition after_insert ::
  "(job_opening \<Rightarrow> site \<Rightarrow> py_error + site) \<Rightarrow> string \<Rightarrow> site \<Rightarrow> route_doc \<Rightarrow> site" where
  "after_insert ins now st doc =
     (let title = ''New Route Job Opening Creation Error - '' @ rd_name doc in
      case route_name doc of
        None \<Rightarrow> log_error st title AttributeError
      | Some rn \<Rightarrow>
          if str_contains ''default'' (lower rn) then st
          else (case ins (new_job_opening now doc) st of
                  Inl e \<Rightarrow> log_error st title e
                | Inr st' \<Rightarrow> st'\<lparr>commits := Suc (commits st')\<rparr>))"



section \<open>permission\_query\_conditions/employee.py: the row filter of Employee\<close>

text \<open>
  The columns of \<open>tabEmployee\<close> that the filter and its SQL read: \<open>name\<close>, \<open>reports_to\<close>
  (NULL is \<open>None\<close>) and \<open>status\<close>.
\<close>

record employee =
  emp_name :: string
  reports_to :: "string option"
  emp_status :: string

text \<open>
  What the function asks of the framework: \<open>frappe.get_roles(user)\<close>,
  \<open>frappe.db.get_value("Employee", {"user_id": user}, "name")\<close> (\<open>None\<close> when no record
  matches) and the Employee table that \<open>frappe.db.sql\<close> runs the recursive query on.
  \<open>frappe.msgprint\<close> only shows diagnostics and is left out.
\<close>

record perm_env =
  get_roles :: "string \<Rightarrow> string list"
  employee_of_user :: "string \<Rightarrow> string option"
  tabEmployee :: "employee list"

text \<open>The rows of the common table expression \<open>emp_hierarchy\<close>: name, reports\_to, level.\<close>

record cte_row =
  h_name :: string
  h_reports_to :: "string option"
  h_level :: nat

text \<open>
  The anchor member: \<open>SELECT name, reports_to, 1 FROM tabEmployee WHERE reports_to = employee\<close>.
  SQL equality is taken as equality of strings; a NULL \<open>reports_to\<close> matches nothing.
\<close>

definition anchor_rows :: "employee list \<Rightarrow> string \<Rightarrow> cte_row list" where
  "anchor_rows tab employee =
     map (\<lambda>e. \<lparr>h_name = emp_name e, h_reports_to = reports_to e, h_level = 1\<rparr>)
       (filter (\<lambda>e. reports_to e = Some employee) tab)"

text \<open>
  The recursive member, joined with the rows the previous step added:
  \<open>SELECT e.name, e.reports_to, eh.level + 1 FROM tabEmployee e
    INNER JOIN emp_hierarchy eh ON e.reports_to = eh.name\<close>.
\<close>

definition recursive_rows :: "employee list \<Rightarrow> cte_row list \<Rightarrow> cte_row list" where
  "recursive_rows tab prev =
     concat (map (\<lambda>e.
       map (\<lambda>eh. \<lparr>h_name = emp_name e, h_reports_to = reports_to e, h_level = h_level eh + 1\<rparr>)
         (filter (\<lambda>eh. reports_to e = Some (h_name eh)) prev)) tab)"

text \<open>
  \<open>WITH RECURSIVE ... UNION ALL\<close>: the store keeps the rows of a step and feeds them to
  the recursive member until a step adds no row. Nothing removes duplicates, so on a cyclic
  table the iteration does not end: the result is then \<open>None\<close>.
\<close>

partial_function (option) emp_hierarchy :: "employee list \<Rightarrow> cte_row list \<Rightarrow> cte_row list option" where
  "emp_hierarchy tab new =
     (if new = [] then Some []
      else Option.bind (emp_hierarchy tab (recursive_rows tab new)) (\<lambda>rest. Some (new @ rest)))"

text \<open>
  \<open>subordinate_names = [employee]\<close>, extended by the \<open>name\<close> column of the query's result.
\<close>

definition subordinate_names :: "employee list \<Rightarrow> string \<Rightarrow> string list option" where
  "subordinate_names tab employee =
     map_option (\<lambda>subordinates. [employee] @ map h_name subordinates)
       (emp_hierarchy tab (anchor_rows tab employee))"

text \<open>
  The entries of the Python list \<open>conditions\<close>. Each is a fragment of SQL; \<open>render\<close> gives
  its text and \<open>cond_holds\<close> its meaning on a row of the Employee table.
\<close>

datatype sql_cond = StatusActive | NameIn "string list"

abbreviation sq :: string where
  "sq \<equiv> [CHR 0x27]"

fun render :: "sql_cond \<Rightarrow> string" where
  "render StatusActive = ''status = '' @ sq @ ''Active'' @ sq"
| "render (NameIn names) = ''name in ('' @ sq @ str_join (sq @ '','' @ sq) names @ sq @ '')''"

fun cond_holds :: "sql_cond \<Rightarrow> employee \<Rightarrow> bool" where
  "cond_holds StatusActive e = (emp_status e = ''Active'')"
| "cond_holds (NameIn names) e = (emp_name e \<in> set names)"

text \<open>A row passes the returned predicate when it passes every fragment joined by \<open>and\<close>.\<close>

definition row_visible :: "sql_cond list \<Rightarrow> employee \<Rightarrow> bool" where
  "row_visible conditions e = list_all (\<lambda>c. cond_holds c e) conditions"

text \<open>
  The list \<open>conditions\<close> at the \<open>return\<close> reached. \<open>not employee\<close> holds for \<open>None\<close> and
  for the empty string.
\<close>

definition permission_conditions :: "perm_env \<Rightarrow> string \<Rightarrow> sql_cond list option" where
  "permission_conditions env user =
     (let conditions = [StatusActive] in
      if ''System Manager'' \<in> set (get_roles env user) \<or> user = ''Administrator''
      then Some conditions
      else case employee_of_user env user of
        None \<Rightarrow> Some conditions
      | Some employee \<Rightarrow>
          if employee = [] then Some conditions
          else (case subordinate_names (tabEmployee env) employee of
                  None \<Rightarrow> None
                | Some names \<Rightarrow>
                    Some (if names \<noteq> [] then conditions @ [NameIn names] else conditions)))"

text \<open>\<open>get_permission_query_conditions(user)\<close>: the fragments joined by \<open>" and "\<close>.\<close>

definition get_permission_query_conditions :: "perm_env \<Rightarrow> string \<Rightarrow> string option" where
  "get_permission_query_conditions env user =
     map_option (\<lambda>conditions. str_join '' and '' (map render conditions))
       (permission_conditions env user)"

text \<open>
  The edges of the \<open>reports_to\<close> graph, from a manager to each direct report.
\<close>

definition reports_edges :: "employee list \<Rightarrow> (string \<times> string) list" where
  "reports_edges tab =
     concat (map (\<lambda>e. case reports_to e of None \<Rightarrow> [] | Some m \<Rightarrow> [(m, emp_name e)]) tab)"

text \<open>
  A small site used to run the filter: E1 leads E2, E2 leads E3, E4 stands alone, and E2
  has left the company.
\<close>

definition demo_employees :: "employee list" where
  "demo_employees =
     [\<lparr>emp_name = ''E1'', reports_to = None, emp_status = ''Active''\<rparr>,
      \<lparr>emp_name = ''E3'', reports_to = Some ''E2'', emp_status = ''Active''\<rparr>,
      \<lparr>emp_name = ''E2'', reports_to = Some ''E1'', emp_status = ''Left''\<rparr>,
      \<lparr>emp_name = ''E4'', reports_to = None, emp_status = ''Active''\<rparr>]"

definition demo_env :: perm_env where
  "demo_env =
     \<lparr>get_roles = (\<lambda>u. if u = ''boss@example.com'' then [''System Manager''] else [''Employee'']),
      employee_of_user = (\<lambda>u. if u = ''lead@example.com'' then Some ''E1'' else None),
      tabEmployee = demo_employees\<rparr>"


section \<open>report/point\_wise\_attendance: the attendance report\<close>

subsection \<open>What the report reads\<close>

text \<open>
  The rows the framework's queries return, with the fields the report selects. A field
  that can be NULL in the store is an \<open>option\<close>; \<open>count(*)\<close> is a natural number.
\<close>

record point_doc =
  p_name :: string
  p_zone_name :: "string option"

record zone_doc =
  z_name :: string
  z_zone_name :: "string option"

record point_count =
  pc_point :: "string option"
  pc_total_employees :: nat

record status_count =
  sc_status :: string
  sc_count :: nat

record designation_count =
  dc_designation :: "string option"
  dc_total :: nat

text \<open>
  The queries of the report, as functions of the arguments that vary:
  \<^item> \<open>point_list zones\<close>: \<open>frappe.get_list("Point", ...)\<close> with \<open>is_active = 1\<close> and, when
    \<open>zones\<close> is given, \<open>zone_name in zones\<close>;
  \<^item> \<open>zone_list\<close>: \<open>frappe.get_list("Zone", ...)\<close>;
  \<^item> \<open>employee_point_counts companies points\<close>: active employees of the companies whose
    \<open>custom_point\<close> is in \<open>points\<close>, grouped by \<open>custom_point\<close>;
  \<^item> \<open>point_employee_names point companies\<close>: the names of the active employees of a point;
  \<^item> \<open>attendance_status_counts date employees\<close>: submitted Attendance rows of the date for
    these employees, grouped by \<open>status\<close>;
  \<^item> \<open>designation_counts companies\<close>: active employees of the companies, grouped by
    \<open>designation\<close>;
  \<^item> \<open>designation_employee_names designation companies\<close>: the names of the active
    employees of a designation;
  \<^item> \<open>descendants_of company\<close>: \<open>get_descendants_of("Company", company)\<close>.
  The properties below hold for every such store.
\<close>

record frappe_db =
  point_list :: "string list option \<Rightarrow> point_doc list"
  zone_list :: "zone_doc list"
  employee_point_counts :: "string list option \<Rightarrow> string list \<Rightarrow> point_count list"
  point_employee_names :: "string \<Rightarrow> string list option \<Rightarrow> string list"
  attendance_status_counts :: "string option \<Rightarrow> string list \<Rightarrow> status_count list"
  designation_counts :: "string list option \<Rightarrow> designation_count list"
  designation_employee_names :: "string option \<Rightarrow> string list option \<Rightarrow> string list"
  descendants_of :: "string \<Rightarrow> string list"

text \<open>
  The filters, a \<open>frappe._dict\<close>: a key that is absent reads as \<open>None\<close>. \<open>companies\<close> is
  the attribute \<open>execute\<close> sets.
\<close>

record filters =
  f_company :: "string option"
  include_company_descendants :: bool
  f_date :: "string option"
  f_zones :: "string list option"
  f_points :: "string list option"
  companies :: "string list option"

subsection \<open>Rows of the report\<close>

text \<open>
  A row of the report. \<open>zone\<close> is a Python value that may be \<open>None\<close> (a Zone whose
  \<open>zone_name\<close> is empty in the store). The percentage is a Python number, the integer
  \<open>0\<close> or a float; the field holds its value.
\<close>

record row =
  zone :: "string option"
  point :: string
  total_employees :: nat
  present :: nat
  absent :: nat
  on_leave :: nat
  attendance_percentage :: rat

record zone_total =
  zt_total_employees :: nat
  zt_present :: nat
  zt_absent :: nat
  zt_on_leave :: nat

text \<open>\<open>zone_map = {zone.name: zone.zone_name for zone in zones}\<close>: a later entry wins.\<close>

definition zone_map :: "zone_doc list \<Rightarrow> (string \<rightharpoonup> string option)" where
  "zone_map zones = fold (\<lambda>z m. m(z_name z \<mapsto> z_zone_name z)) zones Map.empty"

text \<open>\<open>zone_map.get(p.zone_name, "")\<close>; the key itself may be \<open>None\<close>.\<close>

definition zone_map_get :: "(string \<rightharpoonup> string option) \<Rightarrow> string option \<Rightarrow> string option" where
  "zone_map_get zm k =
     (case k of
        None \<Rightarrow> Some []
      | Some zn \<Rightarrow> (case zm zn of None \<Rightarrow> Some [] | Some v \<Rightarrow> v))"

definition point_zone_map ::
  "(string \<rightharpoonup> string option) \<Rightarrow> point_doc list \<Rightarrow> (string \<rightharpoonup> string option)" where
  "point_zone_map zm allowed_points =
     fold (\<lambda>p m. m(p_name p \<mapsto> zone_map_get zm (p_zone_name p))) allowed_points Map.empty"

text \<open>
  The loop over \<open>attendance_counts\<close> (lines 341 to 347): each matching group assigns its
  count to the counter.
\<close>

fun count_statuses :: "status_count list \<Rightarrow> nat \<times> nat \<times> nat \<Rightarrow> nat \<times> nat \<times> nat" where
  "count_statuses [] acc = acc"
| "count_statuses (c # cs) (p, a, l) =
     (if sc_status c = ''Present'' \<or> sc_status c = ''Work From Home''
      then count_statuses cs (sc_count c, a, l)
      else if sc_status c = ''Absent'' then count_statuses cs (p, sc_count c, l)
      else if sc_status c = ''On Leave'' then count_statuses cs (p, a, sc_count c)
      else count_statuses cs (p, a, l))"

text \<open>
  Python's \<open>/\<close> on two integers raises on a zero divisor and otherwise gives the float
  nearest to the quotient.
\<close>

definition truediv :: "nat \<Rightarrow> nat \<Rightarrow> py_error + rat" where
  "truediv a b = (if b = 0 then Inl ZeroDivisionError else Inr (round64 (of_nat a / of_nat b)))"

text \<open>
  \<open>(part / marked * 100) if marked else 0\<close>: the float quotient times 100, rounded again.
  In every use \<open>marked\<close> is \<open>part\<close> plus two other counts.
\<close>

definition percentage :: "nat \<Rightarrow> nat \<Rightarrow> py_error + rat" where
  "percentage part marked =
     (if marked \<noteq> 0
      then (case truediv part marked of Inl e \<Rightarrow> Inl e | Inr q \<Rightarrow> Inr (round64 (q * 100)))
      else Inr 0)"

text \<open>The body of the loop over \<open>points\<close> up to \<open>row_data\<close> (lines 308 to 361).\<close>

definition point_row ::
  "frappe_db \<Rightarrow> filters \<Rightarrow> (string \<rightharpoonup> string option) \<Rightarrow> string \<Rightarrow> nat \<Rightarrow> py_error + row" where
  "point_row db f pzm pt headcount =
     (let zone_v = (case pzm pt of None \<Rightarrow> Some [] | Some z \<Rightarrow> z);
          point_employees = point_employee_names db pt (companies f);
          attendance_counts = attendance_status_counts db (f_date f) point_employees;
          (p, a, l) = count_statuses attendance_counts (0, 0, 0);
          total_marked = p + a + l
      in case percentage p total_marked of
           Inl e \<Rightarrow> Inl e
         | Inr pct \<Rightarrow>
             Inr \<lparr>zone = zone_v, point = pt, total_employees = headcount, present = p,
                  absent = a, on_leave = l, attendance_percentage = pct\<rparr>)"

text \<open>Lines 366 to 376: the entry of the row's zone is created at zero and added to.\<close>

definition add_to_zone ::
  "(string option \<rightharpoonup> zone_total) \<Rightarrow> row \<Rightarrow> (string option \<rightharpoonup> zone_total)" where
  "add_to_zone zone_wise_data r =
     (let zt = (case zone_wise_data (zone r) of
                  None \<Rightarrow> \<lparr>zt_total_employees = 0, zt_present = 0, zt_absent = 0, zt_on_leave = 0\<rparr>
                | Some t \<Rightarrow> t)
      in zone_wise_data(zone r \<mapsto>
           \<lparr>zt_total_employees = zt_total_employees zt + total_employees r,
            zt_present = zt_present zt + present r,
            zt_absent = zt_absent zt + absent r,
            zt_on_leave = zt_on_leave zt + on_leave r\<rparr>))"

text \<open>
  The loop over \<open>points\<close>, on the pair of \<open>data\<close> and \<open>zone_wise_data\<close>. A group whose
  point is \<open>None\<close> or empty is skipped (\<open>continue\<close>).
\<close>

fun point_loop ::
  "frappe_db \<Rightarrow> filters \<Rightarrow> (string \<rightharpoonup> string option) \<Rightarrow> point_count list
    \<Rightarrow> row list \<times> (string option \<rightharpoonup> zone_total)
    \<Rightarrow> py_error + (row list \<times> (string option \<rightharpoonup> zone_total))" where
  "point_loop db f pzm [] st = Inr st"
| "point_loop db f pzm (pd # rest) (rows, zwd) =
     (case pc_point pd of
        None \<Rightarrow> point_loop db f pzm rest (rows, zwd)
      | Some pt \<Rightarrow>
          if pt = [] then point_loop db f pzm rest (rows, zwd)
          else (case point_row db f pzm pt (pc_total_employees pd) of
                  Inl e \<Rightarrow> Inl e
                | Inr r \<Rightarrow> point_loop db f pzm rest (rows @ [r], add_to_zone zwd r)))"

text \<open>
  Lines 254 to 376: the queries that choose the points, then the loop. The result is
  \<open>data\<close> before it is sorted, and \<open>zone_wise_data\<close>.
\<close>

definition point_rows ::
  "frappe_db \<Rightarrow> filters \<Rightarrow> py_error + (row list \<times> (string option \<rightharpoonup> zone_total))" where
  "point_rows db f =
     (let allowed_points =
            point_list db (case f_zones f of
                             None \<Rightarrow> None
                           | Some zs \<Rightarrow> if zs \<noteq> [] then Some zs else None);
          pzm = point_zone_map (zone_map (zone_list db)) allowed_points;
          allowed_names = map p_name allowed_points;
          custom_point =
            (case f_points f of
               None \<Rightarrow> allowed_names
             | Some ps \<Rightarrow>
                 if ps \<noteq> [] then filter (\<lambda>p. p \<in> set allowed_names) ps else allowed_names);
          points = employee_point_counts db (companies f) custom_point
      in point_loop db f pzm points ([], Map.empty))"

text \<open>The sort key \<open>(x["zone"] or "", x["point"] or "")\<close>.\<close>

definition row_key :: "row \<Rightarrow> string \<times> string" where
  "row_key x = (case zone x of None \<Rightarrow> [] | Some z \<Rightarrow> z, point x)"

text \<open>
  \<open>data.sort(key=...)\<close>: Python's sort is stable; \<open>sort_key\<close> is the stable insertion
  sort of the library. Strings compare byte by byte, as Python compares code points.
\<close>

definition sort_rows :: "row list \<Rightarrow> row list" where
  "sort_rows rows = sort_key row_key rows"

text \<open>
  The dictionary appended for a zone total (lines 396 to 406 and 412 to 422).
  \<open>zone_wise_data[current_zone]\<close> raises KeyError on a missing key.
\<close>

definition zone_total_row :: "(string option \<rightharpoonup> zone_total) \<Rightarrow> string \<Rightarrow> py_error + row" where
  "zone_total_row zone_wise_data current_zone =
     (case zone_wise_data (Some current_zone) of
        None \<Rightarrow> Inl KeyError
      | Some zt \<Rightarrow>
          (let zone_marked = zt_present zt + zt_absent zt + zt_on_leave zt
           in case percentage (zt_present zt) zone_marked of
                Inl e \<Rightarrow> Inl e
              | Inr pct \<Rightarrow>
                  Inr \<lparr>zone = Some (current_zone @ '' Total''), point = [],
                       total_employees = zt_total_employees zt, present = zt_present zt,
                       absent = zt_absent zt, on_leave = zt_on_leave zt,
                       attendance_percentage = pct\<rparr>))"

text \<open>
  The loop of lines 392 to 408 on \<open>current_zone\<close> and \<open>final_data\<close>. \<open>current_zone\<close>
  starts as \<open>None\<close>; a row's zone that is \<open>None\<close> equals it.
\<close>

fun zone_loop ::
  "(string option \<rightharpoonup> zone_total) \<Rightarrow> row list \<Rightarrow> string option \<Rightarrow> row list
    \<Rightarrow> py_error + (string option \<times> row list)" where
  "zone_loop zwd [] current_zone final_data = Inr (current_zone, final_data)"
| "zone_loop zwd (r # rest) current_zone final_data =
     (if zone r \<noteq> current_zone
      then (case current_zone of
              None \<Rightarrow> zone_loop zwd rest (zone r) (final_data @ [r])
            | Some cz \<Rightarrow>
                (case zone_total_row zwd cz of
                   Inl e \<Rightarrow> Inl e
                 | Inr t \<Rightarrow> zone_loop zwd rest (zone r) (final_data @ [t] @ [r])))
      else zone_loop zwd rest current_zone (final_data @ [r]))"

text \<open>Lines 410 to 422: \<open>if current_zone:\<close> is false for \<open>None\<close> and for the empty string.\<close>

definition last_zone_total ::
  "(string option \<rightharpoonup> zone_total) \<Rightarrow> string option \<Rightarrow> row list \<Rightarrow> py_error + row list" where
  "last_zone_total zwd current_zone final_data =
     (case current_zone of
        None \<Rightarrow> Inr final_data
      | Some cz \<Rightarrow>
          if cz = [] then Inr final_data
          else (case zone_total_row zwd cz of
                  Inl e \<Rightarrow> Inl e
                | Inr t \<Rightarrow> Inr (final_data @ [t])))"

text \<open>Lines 381 to 387 and 424 to 434: the grand total, summed over the point rows.\<close>

definition grand_total_row :: "row list \<Rightarrow> py_error + row" where
  "grand_total_row rows =
     (let te = sum_list (map total_employees rows);
          p = sum_list (map present rows);
          a = sum_list (map absent rows);
          l = sum_list (map on_leave rows);
          total_marked = p + a + l
      in case percentage p total_marked of
           Inl e \<Rightarrow> Inl e
         | Inr pct \<Rightarrow>
             Inr \<lparr>zone = Some ''Grand Total'', point = [], total_employees = te, present = p,
                  absent = a, on_leave = l, attendance_percentage = pct\<rparr>)"

text \<open>Lines 389 to 436 on the sorted rows.\<close>

definition add_totals :: "(string option \<rightharpoonup> zone_total) \<Rightarrow> row list \<Rightarrow> py_error + row list" where
  "add_totals zwd rows =
     (case zone_loop zwd rows None [] of
        Inl e \<Rightarrow> Inl e
      | Inr (current_zone, final_data) \<Rightarrow>
          (case last_zone_total zwd current_zone final_data of
             Inl e \<Rightarrow> Inl e
           | Inr final_data' \<Rightarrow>
               (case grand_total_row rows of
                  Inl e \<Rightarrow> Inl e
                | Inr g \<Rightarrow> Inr (final_data' @ [g]))))"

definition get_point_wise_attendance :: "frappe_db \<Rightarrow> filters \<Rightarrow> py_error + row list" where
  "get_point_wise_attendance db f =
     (case point_rows db f of
        Inl e \<Rightarrow> Inl e
      | Inr (rows, zwd) \<Rightarrow> add_totals zwd (sort_rows rows))"

subsection \<open>execute\<close>

text \<open>
  The entry of \<open>designation_attendance\<close> for one designation (lines 119 to 130): here the
  counts of Present and Work From Home are added up.
\<close>

record designation_entry =
  de_total :: nat
  de_present :: nat
  de_absent :: nat
  de_on_leave :: nat
  de_marked :: nat

definition status_sum :: "string list \<Rightarrow> status_count list \<Rightarrow> nat" where
  "status_sum statuses attendance =
     sum_list (map sc_count (filter (\<lambda>a. sc_status a \<in> set statuses) attendance))"

definition designation_entry_of :: "frappe_db \<Rightarrow> filters \<Rightarrow> designation_count \<Rightarrow> designation_entry" where
  "designation_entry_of db f desig =
     (let employees = designation_employee_names db (dc_designation desig) (companies f);
          attendance = attendance_status_counts db (f_date f) employees;
          p = status_sum [''Present'', ''Work From Home''] attendance;
          a = status_sum [''Absent''] attendance;
          l = status_sum [''On Leave''] attendance
      in \<lparr>de_total = dc_total desig, de_present = p, de_absent = a, de_on_leave = l,
          de_marked = p + a + l\<rparr>)"

text \<open>Lines 78 to 130: the dictionary \<open>designation_attendance\<close>, as the list of its items.\<close>

definition designation_attendance ::
  "frappe_db \<Rightarrow> filters \<Rightarrow> (string option \<times> designation_entry) list" where
  "designation_attendance db f =
     fold (\<lambda>desig d. dict_set (dc_designation desig) (designation_entry_of db f desig) d)
       (designation_counts db (companies f)) []"

text \<open>
  What \<open>execute\<close> returns in the place of \<open>data\<close>. The loop of line 140,
  \<open>for desig, data in designation_attendance.items()\<close>, binds the name \<open>data\<close> anew: when
  the dictionary is not empty, \<open>data\<close> is the entry of its last item when line 203
  returns it, and the rows of the report otherwise.
\<close>

datatype report_data = PointRows "row list" | DesignationEntry designation_entry

definition data_after_loop ::
  "row list \<Rightarrow> (string option \<times> designation_entry) list \<Rightarrow> report_data" where
  "data_after_loop rows items =
     (case items of [] \<Rightarrow> PointRows rows | _ # _ \<Rightarrow> DesignationEntry (snd (last items)))"

text \<open>
  The values of the five entries of \<open>report_summary\<close>, the values of the pie chart and the
  returned \<open>data\<close>. The column list is a constant and the message is text formatted from
  the totals and from \<open>designation_attendance\<close>; both are left out, and \<open>no_records\<close>
  tells which of the two messages is produced.
\<close>

record report_summary =
  s_total_employees :: nat
  s_present :: nat
  s_absent :: nat
  s_on_leave :: nat
  s_attendance_percentage :: rat

record report =
  rp_data :: report_data
  no_records :: bool
  chart_values :: "nat list"
  summary :: report_summary

text \<open>Lines 9 to 12.\<close>

definition resolve_companies :: "frappe_db \<Rightarrow> filters \<Rightarrow> filters" where
  "resolve_companies db f =
     (case f_company f of
        None \<Rightarrow> f
      | Some c \<Rightarrow>
          if c = [] then f
          else f\<lparr>companies :=
                   Some ([c] @ (if include_company_descendants f then descendants_of db c else []))\<rparr>)"

text \<open>
  \<open>execute(filters)\<close>. The argument \<open>None\<close> stands for \<open>None\<close> or an empty dictionary:
  \<open>filters\<close> then becomes a plain \<open>{}\<close>, on which \<open>filters.companies\<close> in
  \<open>get_point_wise_attendance\<close> raises AttributeError. The totals run over \<open>data[:-1]\<close>,
  where \<open>data\<close> still is the list of rows.
\<close>

definition execute :: "frappe_db \<Rightarrow> filters option \<Rightarrow> py_error + report" where
  "execute db filters_arg =
     (case filters_arg of
        None \<Rightarrow> Inl AttributeError
      | Some f0 \<Rightarrow>
          (let f = resolve_companies db f0
           in case get_point_wise_attendance db f of
             Inl e \<Rightarrow> Inl e
           | Inr rows \<Rightarrow>
               (let total_emp = sum_list (map total_employees (butlast rows));
                    total_present = sum_list (map present (butlast rows));
                    total_absent = sum_list (map absent (butlast rows));
                    total_on_leave = sum_list (map on_leave (butlast rows));
                    total_marked = total_present + total_absent + total_on_leave
                in if total_marked = 0
                   then Inr \<lparr>rp_data = PointRows rows, no_records = True,
                             chart_values = [0, 0, 0],
                             summary = \<lparr>s_total_employees = total_emp, s_present = 0,
                                        s_absent = 0, s_on_leave = 0,
                                        s_attendance_percentage = 0\<rparr>\<rparr>
                   else (case percentage total_present total_marked of
                           Inl e \<Rightarrow> Inl e
                         | Inr pct \<Rightarrow>
                             Inr \<lparr>rp_data = data_after_loop rows (designation_attendance db f),
                                  no_records = False,
                                  chart_values = [total_present, total_absent, total_on_leave],
                                  summary = \<lparr>s_total_employees = total_emp,
                                             s_present = total_present,
                                             s_absent = total_absent,
                                             s_on_leave = total_on_leave,
                                             s_attendance_percentage = pct\<rparr>\<rparr>))))"

subsection \<open>A store held in memory, to run the report on concrete tables\<close>

text \<open>
  Tables of active Points, Zones, Employees and Attendance, and the queries answered from
  them: a group appears where its first row does, and an unset list of companies matches
  no employee. This store is an example, not part of the source.
\<close>

record emp_row =
  er_name :: string
  er_company :: string
  er_status :: string
  er_custom_point :: "string option"
  er_designation :: "string option"

record att_row =
  ar_employee :: string
  ar_attendance_date :: string
  ar_status :: string
  ar_docstatus :: nat

definition in_companies :: "string list option \<Rightarrow> emp_row \<Rightarrow> bool" where
  "in_companies cs e = (case cs of None \<Rightarrow> False | Some l \<Rightarrow> er_company e \<in> set l)"

definition memory_db ::
  "point_doc list \<Rightarrow> zone_doc list \<Rightarrow> emp_row list \<Rightarrow> att_row list \<Rightarrow> frappe_db" where
  "memory_db pts zns emps atts =
     \<lparr>point_list = (\<lambda>zs. case zs of
                            None \<Rightarrow> pts
                          | Some l \<Rightarrow> filter (\<lambda>p. p_zone_name p \<in> Some ` set l) pts),
      zone_list = zns,
      employee_point_counts = (\<lambda>cs ps.
        (let es = filter (\<lambda>e. in_companies cs e \<and> er_status e = ''Active''
                               \<and> er_custom_point e \<in> Some ` set ps) emps
         in map (\<lambda>k. \<lparr>pc_point = k,
                       pc_total_employees = length (filter (\<lambda>e. er_custom_point e = k) es)\<rparr>)
              (remdups (map er_custom_point es)))),
      point_employee_names = (\<lambda>pt cs.
        map er_name (filter (\<lambda>e. er_custom_point e = Some pt \<and> in_companies cs e
                                  \<and> er_status e = ''Active'') emps)),
      attendance_status_counts = (\<lambda>d names.
        (let rs = filter (\<lambda>r. Some (ar_attendance_date r) = d \<and> ar_employee r \<in> set names
                               \<and> ar_docstatus r = 1) atts
         in map (\<lambda>s. \<lparr>sc_status = s, sc_count = length (filter (\<lambda>r. ar_status r = s) rs)\<rparr>)
              (remdups (map ar_status rs)))),
      designation_counts = (\<lambda>cs.
        (let es = filter (\<lambda>e. in_companies cs e \<and> er_status e = ''Active'') emps
         in map (\<lambda>k. \<lparr>dc_designation = k,
                       dc_total = length (filter (\<lambda>e. er_designation e = k) es)\<rparr>)
              (remdups (map er_designation es)))),
      designation_employee_names = (\<lambda>dg cs.
        map er_name (filter (\<lambda>e. er_designation e = dg \<and> in_companies cs e
                                  \<and> er_status e = ''Active'') emps)),
      descendants_of = (\<lambda>c. [])\<rparr>"

definition demo_filters :: filters where
  "demo_filters =
     \<lparr>f_company = Some ''C'', include_company_descendants = False, f_date = Some ''2025-01-06'',
      f_zones = None, f_points = None, companies = None\<rparr>"

definition active_emp :: "string \<Rightarrow> string \<Rightarrow> emp_row" where
  "active_emp n pt =
     \<lparr>er_name = n, er_company = ''C'', er_status = ''Active'', er_custom_point = Some pt,
      er_designation = Some ''Delivery Partner''\<rparr>"

definition submitted :: "string \<Rightarrow> string \<Rightarrow> att_row" where
  "submitted n s =
     \<lparr>ar_employee = n, ar_attendance_date = ''2025-01-06'', ar_status = s, ar_docstatus = 1\<rparr>"


subsection \<open>Notions used to state the properties of the report\<close>

text \<open>The point rows of a zone, and the attendance marked on a row.\<close>

definition zone_rows :: "string option \<Rightarrow> row list \<Rightarrow> row list" where
  "zone_rows z rows = filter (\<lambda>r. zone r = z) rows"

definition marked :: "row \<Rightarrow> nat" where
  "marked r = present r + absent r + on_leave r"

text \<open>
  The percentage as a total function: zero when nothing is marked, and otherwise the
  float that Python computes for \<open>part / m * 100\<close>.
\<close>

definition pct :: "nat \<Rightarrow> nat \<Rightarrow> rat" where
  "pct part m = (if m = 0 then 0 else round64 (round64 (of_nat part / of_nat m) * 100))"

text \<open>The total row of a zone, computed from the point rows of that zone.\<close>

definition total_row_of :: "row list \<Rightarrow> string \<Rightarrow> row" where
  "total_row_of rows cz =
     \<lparr>zone = Some (cz @ '' Total''), point = [],
      total_employees = sum_list (map total_employees (zone_rows (Some cz) rows)),
      present = sum_list (map present (zone_rows (Some cz) rows)),
      absent = sum_list (map absent (zone_rows (Some cz) rows)),
      on_leave = sum_list (map on_leave (zone_rows (Some cz) rows)),
      attendance_percentage =
        pct (sum_list (map present (zone_rows (Some cz) rows)))
            (sum_list (map marked (zone_rows (Some cz) rows)))\<rparr>"

text \<open>
  \<open>zone_wise_data\<close> agrees with a list of point rows: it has an entry exactly for the
  zones that occur, holding the sums over the rows of the zone.
\<close>

definition zwd_ok :: "row list \<Rightarrow> (string option \<rightharpoonup> zone_total) \<Rightarrow> bool" where
  "zwd_ok rows zwd =
     (\<forall>z. zwd z =
        (if zone_rows z rows = [] then None
         else Some \<lparr>zt_total_employees = sum_list (map total_employees (zone_rows z rows)),
                    zt_present = sum_list (map present (zone_rows z rows)),
                    zt_absent = sum_list (map absent (zone_rows z rows)),
                    zt_on_leave = sum_list (map on_leave (zone_rows z rows))\<rparr>))"

text \<open>
  The zones whose total row the loop appends, in order, when it runs over rows with the
  zones \<open>zs\<close> from \<open>current_zone = cur\<close>; and the zones that get a total row in the
  whole report, the last one only if it is a non-empty string.
\<close>

definition leaving :: "string option \<Rightarrow> string option \<Rightarrow> string list" where
  "leaving cur z = (case cur of None \<Rightarrow> [] | Some cz \<Rightarrow> if z = Some cz then [] else [cz])"

fun emitted :: "string option \<Rightarrow> string option list \<Rightarrow> string list" where
  "emitted cur [] = []"
| "emitted cur (z # zs) = leaving cur z @ emitted z zs"

definition total_zones :: "string option list \<Rightarrow> string list" where
  "total_zones zs =
     emitted None zs @
     (case last (None # zs) of None \<Rightarrow> [] | Some cz \<Rightarrow> if cz = [] then [] else [cz])"


subsection \<open>Concrete sites for the report\<close>

text \<open>
  Company C, points P1 (three employees: two present, one absent) and P2 (two employees,
  both on leave), both in the zone named Z1.
\<close>

definition scenario_db :: frappe_db where
  "scenario_db = memory_db
     [\<lparr>p_name = ''P1'', p_zone_name = Some ''Z-1''\<rparr>, \<lparr>p_name = ''P2'', p_zone_name = Some ''Z-1''\<rparr>]
     [\<lparr>z_name = ''Z-1'', z_zone_name = Some ''Z1''\<rparr>]
     [active_emp ''E1'' ''P1'', active_emp ''E2'' ''P1'', active_emp ''E3'' ''P1'',
      active_emp ''E4'' ''P2'', active_emp ''E5'' ''P2'']
     [submitted ''E1'' ''Present'', submitted ''E2'' ''Present'', submitted ''E3'' ''Absent'',
      submitted ''E4'' ''On Leave'', submitted ''E5'' ''On Leave'']"

text \<open>One point in zone Z1; two employees are present and one works from home.\<close>

definition wfh_db :: frappe_db where
  "wfh_db = memory_db
     [\<lparr>p_name = ''P1'', p_zone_name = Some ''Z-1''\<rparr>]
     [\<lparr>z_name = ''Z-1'', z_zone_name = Some ''Z1''\<rparr>]
     [active_emp ''E1'' ''P1'', active_emp ''E2'' ''P1'', active_emp ''E3'' ''P1'']
     [submitted ''E1'' ''Present'', submitted ''E2'' ''Present'',
      submitted ''E3'' ''Work From Home'']"

text \<open>One point that belongs to no zone, with one employee, who is present.\<close>

definition nozone_db :: frappe_db where
  "nozone_db = memory_db
     [\<lparr>p_name = ''P1'', p_zone_name = None\<rparr>]
     []
     [active_emp ''E1'' ''P1'']
     [submitted ''E1'' ''Present'']"

text \<open>One point with two employees and no attendance marked.\<close>

definition unmarked_db :: frappe_db where
  "unmarked_db = memory_db
     [\<lparr>p_name = ''P1'', p_zone_name = Some ''Z-1''\<rparr>]
     [\<lparr>z_name = ''Z-1'', z_zone_name = Some ''Z1''\<rparr>]
     [active_emp ''E1'' ''P1'', active_emp ''E2'' ''P1'']
     []"

text \<open>
  Three points listed out of order: PB in zone South, PA in zone North, PC in no zone.
\<close>

definition mixed_db :: frappe_db where
  "mixed_db = memory_db
     [\<lparr>p_name = ''PB'', p_zone_name = Some ''Z-2''\<rparr>, \<lparr>p_name = ''PA'', p_zone_name = Some ''Z-1''\<rparr>,
      \<lparr>p_name = ''PC'', p_zone_name = None\<rparr>]
     [\<lparr>z_name = ''Z-1'', z_zone_name = Some ''North''\<rparr>, \<lparr>z_name = ''Z-2'', z_zone_name = Some ''South''\<rparr>]
     [active_emp ''E1'' ''PB'', active_emp ''E2'' ''PB'', active_emp ''E3'' ''PA'',
      active_emp ''E4'' ''PC'']
     [submitted ''E1'' ''Present'', submitted ''E2'' ''Absent'', submitted ''E3'' ''Present'',
      submitted ''E4'' ''On Leave'']"

text \<open>The rows of \<open>data\<close> of a run, when it raises nothing.\<close>

definition rows_of ::
  "py_error + (row list \<times> (string option \<rightharpoonup> zone_total)) \<Rightarrow> row list option" where
  "rows_of x = (case x of Inl e \<Rightarrow> None | Inr (rows, zwd) \<Rightarrow> Some rows)"

text \<open>
  The rows expected for the two-point site: the point rows and the two totals. The
  percentage of P1 is the float \<open>2 / 3 * 100\<close>, printed \<open>66.66666666666666\<close>.
\<close>

definition scenario_p1 :: row where
  "scenario_p1 = \<lparr>zone = Some ''Z1'', point = ''P1'', total_employees = 3, present = 2,
                    absent = 1, on_leave = 0,
                    attendance_percentage = 2345624805922133 / 35184372088832\<rparr>"

definition scenario_p2 :: row where
  "scenario_p2 = \<lparr>zone = Some ''Z1'', point = ''P2'', total_employees = 2, present = 0,
                    absent = 0, on_leave = 2, attendance_percentage = 0\<rparr>"

definition scenario_zone_total :: row where
  "scenario_zone_total = \<lparr>zone = Some ''Z1 Total'', point = [], total_employees = 5,
                            present = 2, absent = 1, on_leave = 2, attendance_percentage = 40\<rparr>"

definition scenario_grand_total :: row where
  "scenario_grand_total = \<lparr>zone = Some ''Grand Total'', point = [], total_employees = 5,
                             present = 2, absent = 1, on_leave = 2, attendance_percentage = 40\<rparr>"

definition scenario_filters :: filters where
  "scenario_filters = resolve_companies scenario_db demo_filters"

text \<open>The rows expected for the three-point site.\<close>

definition mixed_pb :: row where
  "mixed_pb = \<lparr>zone = Some ''South'', point = ''PB'', total_employees = 2, present = 1,
                 absent = 1, on_leave = 0, attendance_percentage = 50\<rparr>"

definition mixed_pa :: row where
  "mixed_pa = \<lparr>zone = Some ''North'', point = ''PA'', total_employees = 1, present = 1,
                 absent = 0, on_leave = 0, attendance_percentage = 100\<rparr>"

definition mixed_pc :: row where
  "mixed_pc = \<lparr>zone = Some [], point = ''PC'', total_employees = 1, present = 0,
                 absent = 0, on_leave = 1, attendance_percentage = 0\<rparr>"

definition mixed_rows :: "row list" where
  "mixed_rows =
     [mixed_pc,
      \<lparr>zone = Some '' Total'', point = [], total_employees = 1, present = 0,
        absent = 0, on_leave = 1, attendance_percentage = 0\<rparr>,
      mixed_pa,
      \<lparr>zone = Some ''North Total'', point = [], total_employees = 1, present = 1,
        absent = 0, on_leave = 0, attendance_percentage = 100\<rparr>,
      mixed_pb,
      \<lparr>zone = Some ''South Total'', point = [], total_employees = 2, present = 1,
        absent = 1, on_leave = 0, attendance_percentage = 50\<rparr>,
      \<lparr>zone = Some ''Grand Total'', point = [], total_employees = 4, present = 2,
        absent = 1, on_leave = 1, attendance_percentage = 50\<rparr>]"

text \<open>
  What \<open>execute\<close> returns there: all four employees have the same designation, and the
  returned \<open>data\<close> is the entry of that designation.
\<close>

definition mixed_report :: report where
  "mixed_report =
     \<lparr>rp_data = DesignationEntry \<lparr>de_total = 4, de_present = 2, de_absent = 1,
                                   de_on_leave = 1, de_marked = 4\<rparr>,
      no_records = False, chart_values = [4, 2, 2],
      summary = \<lparr>s_total_employees = 8, s_present = 4, s_absent = 2, s_on_leave = 2,
                 s_attendance_percentage = 50\<rparr>\<rparr>"

text \<open>
  A store given by the answers of its queries: one point P1 in zone Z1 with twenty
  employees, eleven of them present and nine absent on the date.
\<close>

definition eleven_db :: frappe_db where
  "eleven_db =
     \<lparr>point_list = (\<lambda>zs. [\<lparr>p_name = ''P1'', p_zone_name = Some ''Z-1''\<rparr>]),
      zone_list = [\<lparr>z_name = ''Z-1'', z_zone_name = Some ''Z1''\<rparr>],
      employee_point_counts = (\<lambda>cs ps. [\<lparr>pc_point = Some ''P1'', pc_total_employees = 20\<rparr>]),
      point_employee_names = (\<lambda>pt cs. []),
      attendance_status_counts = (\<lambda>d names.
        [\<lparr>sc_status = ''Present'', sc_count = 11\<rparr>, \<lparr>sc_status = ''Absent'', sc_count = 9\<rparr>]),
      designation_counts = (\<lambda>cs. [\<lparr>dc_designation = Some ''Delivery Partner'', dc_total = 20\<rparr>]),
      designation_employee_names = (\<lambda>dg cs. []),
      descendants_of = (\<lambda>c. [])\<rparr>"

text \<open>
  The rows expected for that store. The percentage is the float \<open>11 / 20 * 100\<close>,
  printed \<open>55.00000000000001\<close>: one unit in the last place above 55.
\<close>

definition eleven_p1 :: row where
  "eleven_p1 = \<lparr>zone = Some ''Z1'', point = ''P1'', total_employees = 20, present = 11,
                  absent = 9, on_leave = 0,
                  attendance_percentage = 7740561859543041 / 140737488355328\<rparr>"

definition eleven_zone_total :: row where
  "eleven_zone_total = \<lparr>zone = Some ''Z1 Total'', point = [], total_employees = 20,
                          present = 11, absent = 9, on_leave = 0,
                          attendance_percentage = 7740561859543041 / 140737488355328\<rparr>"

definition eleven_grand_total :: row where
  "eleven_grand_total = \<lparr>zone = Some ''Grand Total'', point = [], total_employees = 20,
                           present = 11, absent = 9, on_leave = 0,
                           attendance_percentage = 7740561859543041 / 140737488355328\<rparr>"


section \<open>api\_end\_points/farmer\_visit\_api.py: creating a farmer visit\<close>

subsection \<open>The definition of the endpoint\<close>

text \<open>
  Python compiles a module before it runs any of it, and refuses a \<open>def\<close> in which a
  parameter without a default follows one with a default (SyntaxError). A parameter list
  is given by the names and whether each has a default.
\<close>

fun params_compile :: "(string \<times> bool) list \<Rightarrow> bool" where
  "params_compile [] = True"
| "params_compile ((name, has_default) # rest) =
     ((if has_default then list_all snd rest else True) \<and> params_compile rest)"

text \<open>
  Lines 68 to 72:
  \<open>def create_farmer_visit(farmer_name: str = None, farmer_create_detail: Dict = None,
  visit_tracker_detail: Dict[str, Any])\<close>.
\<close>

definition create_farmer_visit_params :: "(string \<times> bool) list" where
  "create_farmer_visit_params =
     [(''farmer_name'', True), (''farmer_create_detail'', True), (''visit_tracker_detail'', False)]"

subsection \<open>The body of the endpoint\<close>

text \<open>
  A dictionary with string keys and values. \<open>dict_merge base extra\<close> is
  \<open>{**base, **extra}\<close>: a key of \<open>extra\<close> replaces the value of the same key of \<open>base\<close>,
  also the key \<open>doctype\<close>.
\<close>

type_synonym pydict = "(string \<times> string) list"

definition dict_merge :: "pydict \<Rightarrow> pydict \<Rightarrow> pydict" where
  "dict_merge base extra = fold (\<lambda>(k, v) d. dict_set k v d) extra base"

definition has_key :: "string \<Rightarrow> pydict \<Rightarrow> bool" where
  "has_key k d = (k \<in> fst ` set d)"

text \<open>
  A stored document: its name, its fields (the key \<open>doctype\<close> says which table it is in)
  and its docstatus (0 draft, 1 submitted).
\<close>

record document =
  doc_name :: string
  doc_fields :: pydict
  docstatus :: nat

definition doctype_of :: "document \<Rightarrow> string option" where
  "doctype_of d = map_of (doc_fields d) ''doctype''"

text \<open>
  The site as the endpoint sees it: the stored documents and
  \<open>frappe.local.response['http_status_code']\<close>.
\<close>

record visit_site =
  documents :: "document list"
  http_status_code :: "nat option"

text \<open>The dictionary every endpoint returns.\<close>

record envelope =
  e_success :: bool
  e_status :: string
  e_message :: string
  e_code :: string
  e_data :: "pydict option"
  e_http_status_code :: nat

text \<open>
  What the body calls and does not define.
  \<^item> \<open>verify_dp_token\<close> and \<open>handle_error_response\<close> are imported from the module
    \<open>attendance_api\<close> of this repository, which is not among the sources: they are
    parameters. The verifier raises, or answers invalid with the result to return, or
    valid with the employee.
  \<^item> \<open>frappe.get_doc(...).insert()\<close> and \<open>submit()\<close> are the framework's:
    \<open>check_insert\<close> and \<open>check_submit\<close> say whether they raise on a document,
    \<open>name_doc\<close> gives the name an inserted document receives. An insert that raises
    stores nothing; a submit that raises leaves the draft.
\<close>

record visit_env =
  verify_dp_token :: "py_error + (envelope + string)"
  handle_error_response :: "py_error \<Rightarrow> string \<Rightarrow> envelope"
  check_insert :: "pydict \<Rightarrow> py_error option"
  check_submit :: "document \<Rightarrow> py_error option"
  name_doc :: "visit_site \<Rightarrow> pydict \<Rightarrow> string"

text \<open>\<open>str(e)\<close> of a caught exception.\<close>

fun str_of_error :: "py_error \<Rightarrow> string" where
  "str_of_error (FrameworkError s) = s"
| "str_of_error AttributeError = ''AttributeError''"
| "str_of_error KeyError = ''KeyError''"
| "str_of_error NameError = ''NameError''"
| "str_of_error SyntaxError = ''SyntaxError''"
| "str_of_error ZeroDivisionError = ''ZeroDivisionError''"
| "str_of_error ValidationError = ''ValidationError''"

definition error_envelope :: "string \<Rightarrow> string \<Rightarrow> nat \<Rightarrow> envelope" where
  "error_envelope msg c http =
     \<lparr>e_success = False, e_status = ''error'', e_message = msg, e_code = c, e_data = None,
      e_http_status_code = http\<rparr>"

definition set_status :: "nat \<Rightarrow> visit_site \<Rightarrow> visit_site" where
  "set_status n st = st\<lparr>http_status_code := Some n\<rparr>"

text \<open>\<open>frappe.get_doc({...})\<close> followed by \<open>insert()\<close>.\<close>

definition insert_doc ::
  "visit_env \<Rightarrow> visit_site \<Rightarrow> pydict \<Rightarrow> py_error + (visit_site \<times> document)" where
  "insert_doc env st flds =
     (case check_insert env flds of
        Some e \<Rightarrow> Inl e
      | None \<Rightarrow>
          (let d = \<lparr>doc_name = name_doc env st flds, doc_fields = flds, docstatus = 0\<rparr>
           in Inr (st\<lparr>documents := documents st @ [d]\<rparr>, d)))"

text \<open>\<open>visit.submit()\<close>: the stored draft gets docstatus 1.\<close>

definition submit_doc :: "visit_env \<Rightarrow> visit_site \<Rightarrow> document \<Rightarrow> py_error + visit_site" where
  "submit_doc env st d =
     (case check_submit env d of
        Some e \<Rightarrow> Inl e
      | None \<Rightarrow>
          Inr (st\<lparr>documents :=
                   map (\<lambda>v. if doc_name v = doc_name d \<and> doctype_of v = doctype_of d
                             then v\<lparr>docstatus := 1\<rparr> else v)
                     (documents st)\<rparr>))"

text \<open>
  Lines 141 to 173: the Visit Tracker is inserted and submitted; any exception of either
  step is answered with \<open>VISIT_CREATION_FAILED\<close>. Nothing is deleted or rolled back in
  the handler.
\<close>

definition create_visit ::
  "visit_env \<Rightarrow> visit_site \<Rightarrow> string \<Rightarrow> string \<Rightarrow> pydict \<Rightarrow> visit_site \<times> envelope" where
  "create_visit env st employee farmer visit_tracker_detail =
     (let flds = dict_merge [(''doctype'', ''Visit Tracker''), (''farmer'', farmer),
                             (''visited_by'', employee)] visit_tracker_detail
      in case insert_doc env st flds of
           Inl e \<Rightarrow>
             (set_status 400 st,
              error_envelope (''Failed to create visit: '' @ str_of_error e)
                ''VISIT_CREATION_FAILED'' 400)
         | Inr (st1, visit) \<Rightarrow>
             (case submit_doc env st1 visit of
                Inl e \<Rightarrow>
                  (set_status 400 st1,
                   error_envelope (''Failed to create visit: '' @ str_of_error e)
                     ''VISIT_CREATION_FAILED'' 400)
              | Inr st2 \<Rightarrow>
                  (set_status 201 st2,
                   \<lparr>e_success = True, e_status = ''success'',
                    e_message = ''Visit record created successfully'', e_code = ''VISIT_CREATED'',
                    e_data = Some [(''visit_id'', doc_name visit), (''farmer_id'', farmer)],
                    e_http_status_code = 201\<rparr>)))"

text \<open>
  Lines 122 to 139, then the visit. \<open>handle_base64_image\<close> is neither defined nor
  imported in the module, so with a \<open>visit_image\<close> key the call raises NameError, which
  is not a \<open>frappe.ValidationError\<close> and reaches the outer handler (500).
\<close>

definition image_then_visit ::
  "visit_env \<Rightarrow> visit_site \<Rightarrow> string \<Rightarrow> string \<Rightarrow> pydict \<Rightarrow> visit_site \<times> envelope" where
  "image_then_visit env st employee farmer visit_tracker_detail =
     (if has_key ''visit_image'' visit_tracker_detail
      then (set_status 500 st, handle_error_response env NameError ''Error creating farmer visit'')
      else create_visit env st employee farmer visit_tracker_detail)"

text \<open>
  Lines 82 to 177, the body as written. \<open>not farmer_name\<close> holds for \<open>None\<close> and the
  empty string, \<open>not farmer_create_detail\<close> for \<open>None\<close> and the empty dictionary.
\<close>

definition create_farmer_visit_body ::
  "visit_env \<Rightarrow> visit_site \<Rightarrow> string option \<Rightarrow> pydict option \<Rightarrow> pydict
    \<Rightarrow> visit_site \<times> envelope" where
  "create_farmer_visit_body env st farmer_name farmer_create_detail visit_tracker_detail =
     (case verify_dp_token env of
        Inl e \<Rightarrow> (set_status 500 st, handle_error_response env e ''Error creating farmer visit'')
      | Inr (Inl result) \<Rightarrow> (set_status 401 st, result)
      | Inr (Inr employee) \<Rightarrow>
          (let no_name = (case farmer_name of None \<Rightarrow> True | Some n \<Rightarrow> n = []);
               no_detail = (case farmer_create_detail of None \<Rightarrow> True | Some d \<Rightarrow> d = [])
           in if no_name \<and> no_detail
              then (set_status 400 st,
                    error_envelope ''Either farmer_name or farmer_create_detail must be provided''
                      ''INVALID_INPUT'' 400)
              else (case farmer_create_detail of
                      None \<Rightarrow>
                        image_then_visit env st employee (case farmer_name of None \<Rightarrow> [] | Some n \<Rightarrow> n)
                          visit_tracker_detail
                    | Some d \<Rightarrow>
                        if d = []
                        then image_then_visit env st employee
                               (case farmer_name of None \<Rightarrow> [] | Some n \<Rightarrow> n)
                               visit_tracker_detail
                        else (case insert_doc env st
                                     (dict_merge [(''doctype'', ''Farmer Details''),
                                                  (''registered_by'', employee)] d) of
                                Inl e \<Rightarrow>
                                  (set_status 400 st,
                                   error_envelope (''Failed to create farmer: '' @ str_of_error e)
                                     ''FARMER_CREATION_FAILED'' 400)
                              | Inr (st1, farmer) \<Rightarrow>
                                  image_then_visit env st1 employee (doc_name farmer)
                                    visit_tracker_detail))))"

text \<open>
  A request for \<open>create_farmer_visit\<close>. The framework imports the module to find the
  function; the module does not compile when the parameter list is refused, the import
  raises SyntaxError, and neither the body nor any handler of the body runs.
\<close>

definition create_farmer_visit ::
  "visit_env \<Rightarrow> visit_site \<Rightarrow> string option \<Rightarrow> pydict option \<Rightarrow> pydict
    \<Rightarrow> py_error + (visit_site \<times> envelope)" where
  "create_farmer_visit env st farmer_name farmer_create_detail visit_tracker_detail =
     (if params_compile create_farmer_visit_params
      then Inr (create_farmer_visit_body env st farmer_name farmer_create_detail
                  visit_tracker_detail)
      else Inl SyntaxError)"

text \<open>
  A site for running the endpoint: the verifier accepts and names employee EMP-1, a
  Farmer Details is always accepted, a Visit Tracker is refused unless it has a
  \<open>purpose\<close>, and a submit is refused when the purpose is \<open>draft only\<close>.
\<close>

definition demo_visit_env :: visit_env where
  "demo_visit_env =
     \<lparr>verify_dp_token = Inr (Inr ''EMP-1''),
      handle_error_response = (\<lambda>e msg. error_envelope msg ''SERVER_ERROR'' 500),
      check_insert = (\<lambda>f. if map_of f ''doctype'' = Some ''Visit Tracker'' \<and> \<not> has_key ''purpose'' f
                           then Some (FrameworkError ''purpose is mandatory'') else None),
      check_submit = (\<lambda>d. if (''purpose'', ''draft only'') \<in> set (doc_fields d)
                           then Some (FrameworkError ''cannot submit'') else None),
      name_doc = (\<lambda>st f. if map_of f ''doctype'' = Some ''Visit Tracker''
                          then ''VISIT-1'' else ''FARMER-1'')\<rparr>"

definition empty_site :: visit_site where
  "empty_site = \<lparr>documents = [], http_status_code = None\<rparr>"


section \<open>Properties of the route hook\<close>

lemma str_contains_iff: "str_contains sub s \<longleftrightarrow> (\<exists>ps ss. s = ps @ sub @ ss)"
proof (induction s)
  case Nil
  then show ?case by auto
next
  case (Cons c cs)
  show ?case
  proof
    assume "str_contains sub (c # cs)"
    then consider "prefix sub (c # cs)" | "str_contains sub cs" by auto
    then show "\<exists>ps ss. c # cs = ps @ sub @ ss"
    proof cases
      case 1
      then obtain ss where "c # cs = sub @ ss" by (auto simp: prefix_def)
      then have "c # cs = [] @ sub @ ss" by simp
      then show ?thesis by blast
    next
      case 2
      with Cons.IH obtain ps ss where "cs = ps @ sub @ ss" by blast
      then have "c # cs = (c # ps) @ sub @ ss" by simp
      then show ?thesis by blast
    qed
  next
    assume "\<exists>ps ss. c # cs = ps @ sub @ ss"
    then obtain ps ss where eq: "c # cs = ps @ sub @ ss" by blast
    show "str_contains sub (c # cs)"
    proof (cases ps)
      case Nil
      with eq have "prefix sub (c # cs)" by (simp add: prefix_def)
      then show ?thesis by simp
    next
      case (Cons p ps')
      with eq have "cs = ps' @ sub @ ss" by simp
      with Cons.IH have "str_contains sub cs" by blast
      then show ?thesis by simp
    qed
  qed
qed

text \<open>
  C10. A route whose \<open>route_name\<close>, lowered, contains \<open>default\<close> leaves the site as it
  was: no Job Opening is created, nothing is logged, nothing is committed, whatever the
  framework's insert would have done.
\<close>

theorem after_insert_default_skips:
  assumes "route_name doc = Some rn"
    and "\<exists>ps ss. lower rn = ps @ ''default'' @ ss"
  shows "after_insert ins now st doc = st
       \<and> job_openings (after_insert ins now st doc) = job_openings st"
proof -
  from assms(2) have "str_contains ''default'' (lower rn)"
    by (simp only: str_contains_iff)
  with assms(1) have "after_insert ins now st doc = st"
    by (simp add: after_insert_def)
  then show ?thesis by simp
qed

theorem after_insert_default_skips_witness:
  "lower ''Default North'' = [] @ ''default'' @ '' north''
   \<and> after_insert (\<lambda>jo s. Inr (s\<lparr>job_openings := job_openings s @ [jo]\<rparr>)) ''2025-01-01 00:00:00''
        \<lparr>job_openings = [], error_log = [], commits = 0\<rparr>
        \<lparr>rd_name = ''R-0001'', route_name = Some ''Default North'', branch = None\<rparr>
     = \<lparr>job_openings = [], error_log = [], commits = 0\<rparr>"
proof -
  have low: "lower ''Default North'' = [] @ ''default'' @ '' north''"
    by code_simp
  then have ex: "\<exists>ps ss. lower ''Default North'' = ps @ ''default'' @ ss"
    by blast
  have rn: "route_name \<lparr>rd_name = ''R-0001'', route_name = Some ''Default North'', branch = None\<rparr>
      = Some ''Default North''"
    by simp
  from after_insert_default_skips [OF rn ex] low show ?thesis
    by blast
qed


section \<open>Properties of the Employee row filter\<close>

lemma names_anchor: "set (map h_name (anchor_rows tab x)) = set (reports_edges tab) `` {x}"
  by (auto simp: anchor_rows_def reports_edges_def split: option.splits)

lemma names_recursive:
  "set (map h_name (recursive_rows tab prev)) = set (reports_edges tab) `` set (map h_name prev)"
  apply (auto simp: recursive_rows_def reports_edges_def split: option.splits)
   apply force
  apply force
  done

lemma image_rtrancl_shrinks:
  assumes fin: "finite R" and ac: "acyclic R" and S: "S \<noteq> {}" and finS: "finite S"
  shows "R\<^sup>* `` (R `` S) \<subset> R\<^sup>* `` S"
proof -
  have wf: "wf (R\<^sup>+)" using fin ac by (simp add: finite_acyclic_wf wf_trancl)
  from S obtain s where "s \<in> S" by blast
  with wf obtain z where z: "z \<in> S" and min: "\<And>y. (y, z) \<in> R\<^sup>+ \<Longrightarrow> y \<notin> S"
    by (rule wfE_min) blast
  have sub: "R\<^sup>* `` (R `` S) \<subseteq> R\<^sup>* `` S"
    by (auto intro: converse_rtrancl_into_rtrancl)
  have "z \<in> R\<^sup>* `` S" using z by blast
  moreover have "z \<notin> R\<^sup>* `` (R `` S)"
  proof
    assume "z \<in> R\<^sup>* `` (R `` S)"
    then obtain x y where "x \<in> S" "(x, y) \<in> R" "(y, z) \<in> R\<^sup>*" by blast
    then have "(x, z) \<in> R\<^sup>+" by (simp add: rtrancl_into_trancl2)
    with min \<open>x \<in> S\<close> show False by blast
  qed
  ultimately show ?thesis using sub by blast
qed

lemma rtrancl_image_unfold: "R\<^sup>* `` S = S \<union> R\<^sup>* `` (R `` S)"
proof
  show "R\<^sup>* `` S \<subseteq> S \<union> R\<^sup>* `` (R `` S)"
  proof
    fix y assume "y \<in> R\<^sup>* `` S"
    then obtain x where x: "x \<in> S" "(x, y) \<in> R\<^sup>*" by blast
    from x(2) show "y \<in> S \<union> R\<^sup>* `` (R `` S)"
    proof (cases rule: converse_rtranclE)
      case base
      with x(1) show ?thesis by simp
    next
      case (step z)
      with x(1) show ?thesis by blast
    qed
  qed
  show "S \<union> R\<^sup>* `` (R `` S) \<subseteq> R\<^sup>* `` S"
    by (auto intro: converse_rtrancl_into_rtrancl)
qed

lemma finite_rtrancl_image:
  assumes "finite R" "finite S" shows "finite (R\<^sup>* `` S)"
proof -
  have "R\<^sup>* `` S \<subseteq> S \<union> Range R"
    by (auto elim: rtranclE)
  moreover have "finite (Range R)" using assms(1) by (simp add: finite_Range)
  ultimately show ?thesis using assms(2) by (meson finite_UnI finite_subset)
qed

lemma emp_hierarchy_closure:
  assumes ac: "acyclic (set (reports_edges tab))"
  shows "\<exists>res. emp_hierarchy tab new = Some res
            \<and> set (map h_name res) = (set (reports_edges tab))\<^sup>* `` set (map h_name new)"
proof (induction "card ((set (reports_edges tab))\<^sup>* `` set (map h_name new))"
        arbitrary: new rule: less_induct)
  case less
  let ?R = "set (reports_edges tab)"
  show ?case
  proof (cases "new = []")
    case True
    then show ?thesis by (simp add: emp_hierarchy.simps)
  next
    case False
    let ?S = "set (map h_name new)"
    let ?next = "recursive_rows tab new"
    have S: "?S \<noteq> {}" "finite ?S" using False by auto
    have next_names: "set (map h_name ?next) = ?R `` ?S" by (rule names_recursive)
    have "?R\<^sup>* `` (?R `` ?S) \<subset> ?R\<^sup>* `` ?S"
      using image_rtrancl_shrinks [OF _ ac S] by simp
    moreover have "finite (?R\<^sup>* `` ?S)" by (rule finite_rtrancl_image) auto
    ultimately have "card (?R\<^sup>* `` set (map h_name ?next)) < card (?R\<^sup>* `` ?S)"
      unfolding next_names by (rule psubset_card_mono [rotated])
    from less [OF this] obtain rest where
      rest: "emp_hierarchy tab ?next = Some rest"
        "set (map h_name rest) = ?R\<^sup>* `` (?R `` ?S)"
      unfolding next_names by blast
    have "emp_hierarchy tab new = Some (new @ rest)"
      using False rest(1) by (subst emp_hierarchy.simps) simp
    moreover have "set (map h_name (new @ rest)) = ?R\<^sup>* `` ?S"
    proof -
      have "?R\<^sup>* `` ?S = ?S \<union> ?R\<^sup>* `` (?R `` ?S)"
        by (rule rtrancl_image_unfold)
      with rest(2) show ?thesis by auto
    qed
    ultimately show ?thesis by blast
  qed
qed


lemma trancl_image_conv: "R\<^sup>+ `` S = R\<^sup>* `` (R `` S)"
  by (auto simp: trancl_unfold_left)

lemma emp_hierarchy_Nil: "emp_hierarchy tab [] = Some []"
  by (subst emp_hierarchy.simps) simp

lemma emp_hierarchy_Cons:
  "emp_hierarchy tab (x # xs)
     = Option.bind (emp_hierarchy tab (recursive_rows tab (x # xs))) (\<lambda>rest. Some ((x # xs) @ rest))"
  by (subst emp_hierarchy.simps) simp

lemma demo_edges: "reports_edges demo_employees = [(''E2'', ''E3''), (''E1'', ''E2'')]"
  by (simp add: reports_edges_def demo_employees_def)

lemma demo_acyclic: "acyclic (set (reports_edges demo_employees))"
proof -
  have "set (reports_edges demo_employees) \<subseteq> measure (\<lambda>n. if n = ''E1'' then 0 else if n = ''E2'' then 1 else 2)"
    by (simp add: demo_edges)
  then have "wf (set (reports_edges demo_employees))"
    by (rule wf_subset [OF wf_measure])
  then show ?thesis by (rule wf_acyclic)
qed


text \<open>
  C1. For a user who is neither System Manager nor Administrator, who has an Employee
  record, on a table whose \<open>reports_to\<close> graph has no cycle, the recursive query ends and
  the returned condition is \<open>status = 'Active' and name in (...)\<close>, where the names listed
  are, as a set, the user's own employee id and every direct or indirect subordinate.
\<close>

theorem hierarchy_condition_exact:
  assumes "''System Manager'' \<notin> set (get_roles env user)" and "user \<noteq> ''Administrator''"
    and "employee_of_user env user = Some employee" and "employee \<noteq> []"
    and "acyclic (set (reports_edges (tabEmployee env)))"
  shows "\<exists>names.
           permission_conditions env user = Some [StatusActive, NameIn names]
         \<and> get_permission_query_conditions env user
             = Some (render StatusActive @ '' and '' @ render (NameIn names))
         \<and> set names = {employee} \<union> (set (reports_edges (tabEmployee env)))\<^sup>+ `` {employee}"
proof -
  let ?tab = "tabEmployee env"
  let ?R = "set (reports_edges ?tab)"
  from emp_hierarchy_closure [OF assms(5), of "anchor_rows ?tab employee"]
  obtain res where res: "emp_hierarchy ?tab (anchor_rows ?tab employee) = Some res"
    "set (map h_name res) = ?R\<^sup>* `` set (map h_name (anchor_rows ?tab employee))"
    by blast
  let ?names = "employee # map h_name res"
  have sub: "subordinate_names ?tab employee = Some ?names"
    by (simp add: subordinate_names_def res(1))
  have conds: "permission_conditions env user = Some [StatusActive, NameIn ?names]"
    using assms(1-4) sub by (simp add: permission_conditions_def)
  have str: "get_permission_query_conditions env user
      = Some (render StatusActive @ '' and '' @ render (NameIn ?names))"
    by (simp only: get_permission_query_conditions_def conds option.map list.map str_join.simps)
  have "set (map h_name res) = ?R\<^sup>+ `` {employee}"
    using res(2) by (simp only: names_anchor trancl_image_conv)
  then have "set ?names = {employee} \<union> ?R\<^sup>+ `` {employee}"
    by simp
  with conds str show ?thesis by blast
qed

theorem hierarchy_condition_exact_witness:
  "acyclic (set (reports_edges (tabEmployee demo_env)))
   \<and> permission_conditions demo_env ''lead@example.com''
       = Some [StatusActive, NameIn [''E1'', ''E2'', ''E3'']]
   \<and> get_permission_query_conditions demo_env ''lead@example.com''
       = Some (''status = '' @ sq @ ''Active'' @ sq @ '' and name in (''
               @ sq @ ''E1'' @ sq @ '','' @ sq @ ''E2'' @ sq @ '','' @ sq @ ''E3'' @ sq @ '')'')
   \<and> {''E1'', ''E2'', ''E3''}
       = {''E1''} \<union> (set (reports_edges (tabEmployee demo_env)))\<^sup>+ `` {''E1''}"
proof -
  have tab: "tabEmployee demo_env = demo_employees"
    by (simp add: demo_env_def)
  have ac: "acyclic (set (reports_edges (tabEmployee demo_env)))"
    by (simp only: tab demo_acyclic)
  have h1: "''System Manager'' \<notin> set (get_roles demo_env ''lead@example.com'')"
    by (simp add: demo_env_def)
  have h2: "''lead@example.com'' \<noteq> ''Administrator''"
    by simp
  have h3: "employee_of_user demo_env ''lead@example.com'' = Some ''E1''"
    by (simp add: demo_env_def)
  have h4: "''E1'' \<noteq> []"
    by simp
  have run: "permission_conditions demo_env ''lead@example.com''
      = Some [StatusActive, NameIn [''E1'', ''E2'', ''E3'']]"
    by (simp add: permission_conditions_def demo_env_def demo_employees_def subordinate_names_def
        anchor_rows_def recursive_rows_def emp_hierarchy_Nil emp_hierarchy_Cons)
  have str: "get_permission_query_conditions demo_env ''lead@example.com''
      = Some (''status = '' @ sq @ ''Active'' @ sq @ '' and name in (''
               @ sq @ ''E1'' @ sq @ '','' @ sq @ ''E2'' @ sq @ '','' @ sq @ ''E3'' @ sq @ '')'')"
    by (simp add: get_permission_query_conditions_def run)
  from hierarchy_condition_exact [OF h1 h2 h3 h4 ac] obtain names where
    n: "permission_conditions demo_env ''lead@example.com'' = Some [StatusActive, NameIn names]"
      "set names = {''E1''} \<union> (set (reports_edges (tabEmployee demo_env)))\<^sup>+ `` {''E1''}"
    by blast
  from n(1) run have "names = [''E1'', ''E2'', ''E3'']"
    by simp
  with n(2) have "{''E1'', ''E2'', ''E3''}
      = {''E1''} \<union> (set (reports_edges (tabEmployee demo_env)))\<^sup>+ `` {''E1''}"
    by simp
  with ac run str show ?thesis
    by blast
qed

text \<open>
  C3, as the code has it. For a System Manager, for the user Administrator and for a user
  without an Employee record the function returns the base condition alone,
  \<open>status = 'Active'\<close>: no name is listed, and a row passes exactly when its status is
  Active.
\<close>

theorem base_condition_only:
  assumes "''System Manager'' \<in> set (get_roles env user) \<or> user = ''Administrator''
           \<or> employee_of_user env user = None"
  shows "permission_conditions env user = Some [StatusActive]
       \<and> get_permission_query_conditions env user = Some (''status = '' @ sq @ ''Active'' @ sq)
       \<and> (\<forall>e. row_visible [StatusActive] e \<longleftrightarrow> emp_status e = ''Active'')"
proof -
  have conds: "permission_conditions env user = Some [StatusActive]"
    using assms by (auto simp: permission_conditions_def Let_def)
  then have "get_permission_query_conditions env user = Some (''status = '' @ sq @ ''Active'' @ sq)"
    by (simp add: get_permission_query_conditions_def)
  moreover have "\<forall>e. row_visible [StatusActive] e \<longleftrightarrow> emp_status e = ''Active''"
    by (simp add: row_visible_def)
  ultimately show ?thesis using conds by blast
qed

theorem base_condition_only_witness:
  "employee_of_user demo_env ''guest@example.com'' = None
   \<and> permission_conditions demo_env ''guest@example.com'' = Some [StatusActive]
   \<and> get_permission_query_conditions demo_env ''guest@example.com''
       = Some (''status = '' @ sq @ ''Active'' @ sq)
   \<and> row_visible [StatusActive] \<lparr>emp_name = ''E4'', reports_to = None, emp_status = ''Active''\<rparr>"
proof -
  have none: "employee_of_user demo_env ''guest@example.com'' = None"
    by (simp add: demo_env_def)
  then have "''System Manager'' \<in> set (get_roles demo_env ''guest@example.com'')
      \<or> ''guest@example.com'' = ''Administrator''
      \<or> employee_of_user demo_env ''guest@example.com'' = None"
    by blast
  from base_condition_only [OF this] none show ?thesis
    by simp
qed

text \<open>
  C3 as written fails. For the user Administrator the returned predicate is
  \<open>status = 'Active'\<close>, and the row of E2, whose status is Left, is in the table and does
  not pass it.
\<close>

theorem unrestricted_counterexample:
  "permission_conditions demo_env ''Administrator'' = Some [StatusActive]
   \<and> \<lparr>emp_name = ''E2'', reports_to = Some ''E1'', emp_status = ''Left''\<rparr> \<in> set (tabEmployee demo_env)
   \<and> \<not> row_visible [StatusActive] \<lparr>emp_name = ''E2'', reports_to = Some ''E1'', emp_status = ''Left''\<rparr>"
  by (simp add: permission_conditions_def demo_env_def demo_employees_def row_visible_def)


section \<open>Properties of the attendance report\<close>

subsection \<open>Percentages\<close>

lemma percentage_eq: "percentage part m = Inr (pct part m)"
  by (simp add: percentage_def truediv_def pct_def)

lemma percentage_zero: "percentage part 0 = Inr 0"
  by (simp add: percentage_def)

subsection \<open>The loop over the points\<close>

lemma point_row_eq:
  "point_row db f pzm pt n =
     (case count_statuses
             (attendance_status_counts db (f_date f) (point_employee_names db pt (companies f)))
             (0, 0, 0) of
        (p, a, l) \<Rightarrow>
          Inr \<lparr>zone = (case pzm pt of None \<Rightarrow> Some [] | Some z \<Rightarrow> z), point = pt,
               total_employees = n, present = p, absent = a, on_leave = l,
               attendance_percentage = pct p (p + a + l)\<rparr>)"
  by (simp add: point_row_def percentage_eq Let_def split: prod.splits)

lemma point_row_point: "point_row db f pzm pt n = Inr r \<Longrightarrow> point r = pt"
  by (auto simp: point_row_eq split: prod.splits)

lemma point_row_pct:
  "point_row db f pzm pt n = Inr r \<Longrightarrow> attendance_percentage r = pct (present r) (marked r)"
  by (auto simp: point_row_eq marked_def split: prod.splits)

lemma zone_rows_append: "zone_rows z (xs @ ys) = zone_rows z xs @ zone_rows z ys"
  by (simp add: zone_rows_def)

lemma zone_rows_single: "zone_rows z [r] = (if zone r = z then [r] else [])"
  by (simp add: zone_rows_def)

lemma zwd_ok_empty: "zwd_ok [] Map.empty"
  by (simp add: zwd_ok_def zone_rows_def)

lemma zwd_ok_add: "zwd_ok rows zwd \<Longrightarrow> zwd_ok (rows @ [r]) (add_to_zone zwd r)"
  unfolding zwd_ok_def add_to_zone_def Let_def
  by (simp add: zone_rows_append zone_rows_single)

lemma point_loop_inv:
  "point_loop db f pzm pcs (rows, zwd) = Inr (rows', zwd') \<Longrightarrow> zwd_ok rows zwd
    \<Longrightarrow> \<forall>r\<in>set rows. point r \<noteq> []
    \<Longrightarrow> zwd_ok rows' zwd' \<and> (\<forall>r\<in>set rows'. point r \<noteq> [])"
proof (induction pcs arbitrary: rows zwd)
  case Nil
  then show ?case by simp
next
  case (Cons pd rest)
  show ?case
  proof (cases "pc_point pd")
    case None
    with Cons show ?thesis by simp
  next
    case (Some pt)
    show ?thesis
    proof (cases "pt = []")
      case True
      with Some Cons show ?thesis by simp
    next
      case False
      obtain r where r: "point_row db f pzm pt (pc_total_employees pd) = Inr r"
        by (cases "count_statuses
             (attendance_status_counts db (f_date f) (point_employee_names db pt (companies f)))
             (0, 0, 0)") (simp add: point_row_eq)
      with Some False Cons.prems(1)
      have run: "point_loop db f pzm rest (rows @ [r], add_to_zone zwd r) = Inr (rows', zwd')"
        by simp
      have ok: "zwd_ok (rows @ [r]) (add_to_zone zwd r)"
        using Cons.prems(2) by (rule zwd_ok_add)
      have pts: "\<forall>x\<in>set (rows @ [r]). point x \<noteq> []"
        using Cons.prems(3) False point_row_point [OF r] by auto
      from Cons.IH [OF run ok pts] show ?thesis .
    qed
  qed
qed

lemma point_rows_inv:
  assumes "point_rows db f = Inr (rows, zwd)"
  shows "zwd_ok rows zwd" and "\<forall>r\<in>set rows. point r \<noteq> []"
proof -
  from assms obtain pzm pcs where "point_loop db f pzm pcs ([], Map.empty) = Inr (rows, zwd)"
    unfolding point_rows_def Let_def by blast
  from point_loop_inv [OF this zwd_ok_empty]
  show "zwd_ok rows zwd" and "\<forall>r\<in>set rows. point r \<noteq> []" by simp_all
qed


subsection \<open>The status counters\<close>

lemma rows_of_Some: "rows_of x = Some rows \<Longrightarrow> \<exists>zwd. x = Inr (rows, zwd)"
  by (cases x) (auto simp: rows_of_def)

text \<open>
  C2, at a failing input. At a point where two employees are Present and one works from
  home, the query returns the groups Present (2) and Work From Home (1); the loop assigns
  each count to \<open>present\<close>, so the row reports 1 present (2 with the groups in the other
  order), where the sum is 3.
\<close>

theorem present_overwritten_by_last_group:
  "count_statuses [\<lparr>sc_status = ''Present'', sc_count = 2\<rparr>,
                   \<lparr>sc_status = ''Work From Home'', sc_count = 1\<rparr>] (0, 0, 0) = (1, 0, 0)
   \<and> count_statuses [\<lparr>sc_status = ''Work From Home'', sc_count = 1\<rparr>,
                     \<lparr>sc_status = ''Present'', sc_count = 2\<rparr>] (0, 0, 0) = (2, 0, 0)
   \<and> get_point_wise_attendance wfh_db (resolve_companies wfh_db demo_filters)
       = Inr [\<lparr>zone = Some ''Z1'', point = ''P1'', total_employees = 3, present = 1,
                absent = 0, on_leave = 0, attendance_percentage = 100\<rparr>,
              \<lparr>zone = Some ''Z1 Total'', point = [], total_employees = 3, present = 1,
                absent = 0, on_leave = 0, attendance_percentage = 100\<rparr>,
              \<lparr>zone = Some ''Grand Total'', point = [], total_employees = 3, present = 1,
                absent = 0, on_leave = 0, attendance_percentage = 100\<rparr>]"
  by code_simp

text \<open>
  C8. When the counters of a point add up to zero, the row is built without error and its
  percentage is 0: \<open>percentage\<close> answers 0 without dividing, where the division itself
  would have raised.
\<close>

theorem zero_marked_gives_zero_percent:
  assumes "count_statuses
             (attendance_status_counts db (f_date f) (point_employee_names db pt (companies f)))
             (0, 0, 0) = (p, a, l)"
    and "p + a + l = 0"
  shows "(\<exists>r. point_row db f pzm pt n = Inr r \<and> marked r = 0 \<and> attendance_percentage r = 0)
       \<and> percentage p (p + a + l) = Inr 0
       \<and> truediv p (p + a + l) = Inl ZeroDivisionError"
proof -
  from assms have "point_row db f pzm pt n =
      Inr \<lparr>zone = (case pzm pt of None \<Rightarrow> Some [] | Some z \<Rightarrow> z), point = pt,
           total_employees = n, present = p, absent = a, on_leave = l,
           attendance_percentage = 0\<rparr>"
    by (simp add: point_row_eq pct_def)
  moreover from assms(2) have "p = 0" "a = 0" "l = 0" by simp_all
  ultimately have "\<exists>r. point_row db f pzm pt n = Inr r \<and> marked r = 0
      \<and> attendance_percentage r = 0"
    by (simp add: marked_def)
  moreover have "percentage p (p + a + l) = Inr 0"
    using assms(2) by (simp add: percentage_def)
  moreover have "truediv p (p + a + l) = Inl ZeroDivisionError"
    using assms(2) by (simp add: truediv_def)
  ultimately show ?thesis by blast
qed

theorem zero_marked_gives_zero_percent_witness:
  "count_statuses
     (attendance_status_counts unmarked_db (f_date (resolve_companies unmarked_db demo_filters))
        (point_employee_names unmarked_db ''P1''
           (companies (resolve_companies unmarked_db demo_filters))))
     (0, 0, 0) = (0, 0, 0)
   \<and> (\<exists>r. point_row unmarked_db (resolve_companies unmarked_db demo_filters) Map.empty ''P1'' 2
             = Inr r \<and> marked r = 0 \<and> attendance_percentage r = 0)
   \<and> percentage 0 (0 + 0 + 0) = Inr 0"
proof -
  have c: "count_statuses
     (attendance_status_counts unmarked_db (f_date (resolve_companies unmarked_db demo_filters))
        (point_employee_names unmarked_db ''P1''
           (companies (resolve_companies unmarked_db demo_filters))))
     (0, 0, 0) = (0, 0, 0)"
    by code_simp
  have z: "(0::nat) + 0 + 0 = 0" by simp
  from zero_marked_gives_zero_percent [OF c z, of Map.empty 2] c show ?thesis
    by blast
qed

subsection \<open>The order of the point rows\<close>

lemma sorted_nth_le:
  "sorted xs \<Longrightarrow> i < j \<Longrightarrow> j < length xs \<Longrightarrow> xs ! i \<le> xs ! j"
  by (simp add: sorted_iff_nth_mono)

lemma point_loop_total: "\<exists>st'. point_loop db f pzm pcs st = Inr st'"
proof (induction pcs arbitrary: st)
  case Nil
  then show ?case by simp
next
  case (Cons pd rest)
  obtain rows zwd where st: "st = (rows, zwd)" by (cases st)
  show ?case
  proof (cases "pc_point pd")
    case None
    with Cons.IH [of "(rows, zwd)"] st show ?thesis by simp
  next
    case (Some pt)
    show ?thesis
    proof (cases "pt = []")
      case True
      with Some Cons.IH [of "(rows, zwd)"] st show ?thesis by simp
    next
      case False
      obtain r where r: "point_row db f pzm pt (pc_total_employees pd) = Inr r"
        by (cases "count_statuses
             (attendance_status_counts db (f_date f) (point_employee_names db pt (companies f)))
             (0, 0, 0)") (simp add: point_row_eq)
      with Some False Cons.IH [of "(rows @ [r], add_to_zone zwd r)"] st show ?thesis
        by simp
    qed
  qed
qed

lemma point_rows_total: "\<exists>rows zwd. point_rows db f = Inr (rows, zwd)"
proof -
  obtain pzm pcs where "point_rows db f = point_loop db f pzm pcs ([], Map.empty)"
    unfolding point_rows_def Let_def by blast
  with point_loop_total [of db f pzm pcs "([], Map.empty)"] show ?thesis
    by (metis surj_pair)
qed

lemma sort_rows_ordered:
  "sorted (map row_key (sort_rows rows))
   \<and> mset (sort_rows rows) = mset rows
   \<and> (\<forall>k. filter (\<lambda>r. row_key r = k) (sort_rows rows) = filter (\<lambda>r. row_key r = k) rows)
   \<and> (\<forall>i j. i < j \<and> j < length rows \<longrightarrow>
         fst (row_key (sort_rows rows ! i)) < fst (row_key (sort_rows rows ! j))
         \<or> (fst (row_key (sort_rows rows ! i)) = fst (row_key (sort_rows rows ! j))
            \<and> point (sort_rows rows ! i) \<le> point (sort_rows rows ! j)))
   \<and> (\<forall>i j. i < j \<and> j < length rows \<and> fst (row_key (sort_rows rows ! j)) = []
         \<longrightarrow> fst (row_key (sort_rows rows ! i)) = [])"
proof -
  let ?s = "sort_rows rows"
  have len: "length ?s = length rows" by (simp add: sort_rows_def)
  have srt: "sorted (map row_key ?s)" by (simp add: sort_rows_def)
  have le: "row_key (?s ! i) \<le> row_key (?s ! j)" if "i < j" "j < length rows" for i j
  proof -
    from that len have "i < length (map row_key ?s)" "j < length (map row_key ?s)" by simp_all
    with sorted_nth_le [OF srt that(1)] have "map row_key ?s ! i \<le> map row_key ?s ! j"
      by blast
    with that len show ?thesis by simp
  qed
  have lex: "fst (row_key (?s ! i)) < fst (row_key (?s ! j))
      \<or> (fst (row_key (?s ! i)) = fst (row_key (?s ! j)) \<and> point (?s ! i) \<le> point (?s ! j))"
    if "i < j" "j < length rows" for i j
  proof -
    have "snd (row_key x) = point x" for x by (simp add: row_key_def)
    with le [OF that] show ?thesis
      by (auto simp: less_eq_prod_def)
  qed
  have first: "fst (row_key (?s ! i)) = []"
    if "i < j" "j < length rows" "fst (row_key (?s ! j)) = []" for i j
  proof -
    from lex [OF that(1,2)] that(3) show ?thesis by auto
  qed
  have "mset ?s = mset rows" by (simp add: sort_rows_def)
  moreover have "\<forall>k. filter (\<lambda>r. row_key r = k) ?s = filter (\<lambda>r. row_key r = k) rows"
    by (simp add: sort_rows_def sort_key_stable)
  ultimately show ?thesis using srt lex first by blast
qed

lemma mixed_point_rows:
  "rows_of (point_rows mixed_db (resolve_companies mixed_db demo_filters))
     = Some [mixed_pb, mixed_pa, mixed_pc]"
  by code_simp

lemma mixed_sorted: "sort_rows [mixed_pb, mixed_pa, mixed_pc] = [mixed_pc, mixed_pa, mixed_pb]"
  by code_simp

text \<open>
  C7. For every store and every filter the loop over the points returns its rows, and the
  rows handed to the insertion of the totals are these rows sorted by the key
  (zone, point), a missing zone counting as the empty string: the keys ascend, which for
  pairs means that the zone ascends and, within one zone, the point; the sort keeps the
  rows (as a multiset) and, among rows with equal keys, their order; and a row without a
  zone name is never placed after a row that has one.
\<close>

theorem point_rows_sorted_stably:
  "\<exists>rows zwd. point_rows db f = Inr (rows, zwd)
     \<and> get_point_wise_attendance db f = add_totals zwd (sort_rows rows)
     \<and> sorted (map row_key (sort_rows rows))
     \<and> mset (sort_rows rows) = mset rows
     \<and> (\<forall>k. filter (\<lambda>r. row_key r = k) (sort_rows rows) = filter (\<lambda>r. row_key r = k) rows)
     \<and> (\<forall>r. zone r = None \<longrightarrow> row_key r = ([], point r))
     \<and> (\<forall>i j. i < j \<and> j < length rows \<longrightarrow>
           fst (row_key (sort_rows rows ! i)) < fst (row_key (sort_rows rows ! j))
           \<or> (fst (row_key (sort_rows rows ! i)) = fst (row_key (sort_rows rows ! j))
              \<and> point (sort_rows rows ! i) \<le> point (sort_rows rows ! j)))
     \<and> (\<forall>i j. i < j \<and> j < length rows \<and> fst (row_key (sort_rows rows ! j)) = []
           \<longrightarrow> fst (row_key (sort_rows rows ! i)) = [])"
proof -
  from point_rows_total obtain rows zwd where eq: "point_rows db f = Inr (rows, zwd)"
    by blast
  then have run: "get_point_wise_attendance db f = add_totals zwd (sort_rows rows)"
    by (simp add: get_point_wise_attendance_def)
  have none: "\<forall>r. zone r = None \<longrightarrow> row_key r = ([], point r)"
    by (simp add: row_key_def)
  from sort_rows_ordered [of rows] eq run none show ?thesis
    by blast
qed

theorem point_rows_sorted_stably_witness:
  "\<exists>zwd. point_rows mixed_db (resolve_companies mixed_db demo_filters)
           = Inr ([mixed_pb, mixed_pa, mixed_pc], zwd)
     \<and> get_point_wise_attendance mixed_db (resolve_companies mixed_db demo_filters)
         = add_totals zwd [mixed_pc, mixed_pa, mixed_pb]
     \<and> sort_rows [mixed_pb, mixed_pa, mixed_pc] = [mixed_pc, mixed_pa, mixed_pb]
     \<and> map row_key [mixed_pc, mixed_pa, mixed_pb]
         = [([], ''PC''), (''North'', ''PA''), (''South'', ''PB'')]
     \<and> sorted (map row_key [mixed_pc, mixed_pa, mixed_pb])
     \<and> mset [mixed_pc, mixed_pa, mixed_pb] = mset [mixed_pb, mixed_pa, mixed_pc]"
proof -
  from point_rows_sorted_stably [of mixed_db "resolve_companies mixed_db demo_filters"]
  obtain rows zwd where
    eq: "point_rows mixed_db (resolve_companies mixed_db demo_filters) = Inr (rows, zwd)"
    and run: "get_point_wise_attendance mixed_db (resolve_companies mixed_db demo_filters)
        = add_totals zwd (sort_rows rows)"
    and srt: "sorted (map row_key (sort_rows rows))"
    and ms: "mset (sort_rows rows) = mset rows"
    by blast
  from eq mixed_point_rows have rows: "rows = [mixed_pb, mixed_pa, mixed_pc]"
    by (simp add: rows_of_def)
  have keys: "map row_key [mixed_pc, mixed_pa, mixed_pb]
      = [([], ''PC''), (''North'', ''PA''), (''South'', ''PB'')]"
    by (simp add: row_key_def mixed_pc_def mixed_pa_def mixed_pb_def)
  show ?thesis
  proof (intro exI conjI)
    show "point_rows mixed_db (resolve_companies mixed_db demo_filters)
        = Inr ([mixed_pb, mixed_pa, mixed_pc], zwd)"
      using eq by (simp only: rows)
    show "get_point_wise_attendance mixed_db (resolve_companies mixed_db demo_filters)
        = add_totals zwd [mixed_pc, mixed_pa, mixed_pb]"
      using run by (simp only: rows mixed_sorted)
    show "sort_rows [mixed_pb, mixed_pa, mixed_pc] = [mixed_pc, mixed_pa, mixed_pb]"
      by (rule mixed_sorted)
    show "map row_key [mixed_pc, mixed_pa, mixed_pb]
        = [([], ''PC''), (''North'', ''PA''), (''South'', ''PB'')]"
      by (rule keys)
    show "sorted (map row_key [mixed_pc, mixed_pa, mixed_pb])"
      using srt by (simp only: rows mixed_sorted)
    show "mset [mixed_pc, mixed_pa, mixed_pb] = mset [mixed_pb, mixed_pa, mixed_pc]"
      using ms by (simp only: rows mixed_sorted)
  qed
qed

subsection \<open>A report without a zone total\<close>

text \<open>
  C6, at a failing input. With a single point that belongs to no zone, the zone of its row
  is the empty string; the final test \<open>if current_zone:\<close> is false for it, and the report
  is the point row followed at once by the grand total, with no total row for the zone.
\<close>

theorem no_total_row_for_only_unnamed_zone:
  "get_point_wise_attendance nozone_db (resolve_companies nozone_db demo_filters)
     = Inr [\<lparr>zone = Some [], point = ''P1'', total_employees = 1, present = 1,
              absent = 0, on_leave = 0, attendance_percentage = 100\<rparr>,
            \<lparr>zone = Some ''Grand Total'', point = [], total_employees = 1, present = 1,
              absent = 0, on_leave = 0, attendance_percentage = 100\<rparr>]"
  by code_simp


subsection \<open>The rows of the totals\<close>

lemma sum_list_mset_cong:
  fixes f :: "'a \<Rightarrow> nat"
  assumes "mset xs = mset ys"
  shows "sum_list (map f xs) = sum_list (map f ys)"
proof -
  have "sum_list (map f xs) = sum_mset (image_mset f (mset xs))"
    by (simp flip: sum_mset_sum_list)
  also have "\<dots> = sum_mset (image_mset f (mset ys))"
    by (simp only: assms)
  also have "\<dots> = sum_list (map f ys)"
    by (simp flip: sum_mset_sum_list)
  finally show ?thesis .
qed

lemma sum_list_mset_split:
  fixes f :: "'a \<Rightarrow> nat"
  assumes "mset xs = mset ys + mset zs"
  shows "sum_list (map f xs) = sum_list (map f ys) + sum_list (map f zs)"
proof -
  from assms have "mset xs = mset (ys @ zs)" by simp
  then have "sum_list (map f xs) = sum_list (map f (ys @ zs))"
    by (rule sum_list_mset_cong)
  then show ?thesis by simp
qed

lemma sum_marked:
  "sum_list (map marked xs)
     = sum_list (map present xs) + sum_list (map absent xs) + sum_list (map on_leave xs)"
  by (induction xs) (simp_all add: marked_def)

lemma zone_rows_mset_cong: "mset xs = mset ys \<Longrightarrow> mset (zone_rows z xs) = mset (zone_rows z ys)"
  by (metis zone_rows_def mset_filter)

lemma zone_rows_Nil_iff: "zone_rows z xs = [] \<longleftrightarrow> z \<notin> zone ` set xs"
proof -
  have "zone_rows z xs = [] \<longleftrightarrow> (\<forall>r\<in>set xs. zone r \<noteq> z)"
    by (simp add: zone_rows_def filter_empty_conv)
  then show ?thesis by blast
qed

lemma zone_total_row_ok:
  assumes "zwd_ok rows zwd" and "zone_rows (Some cz) rows \<noteq> []"
  shows "zone_total_row zwd cz = Inr (total_row_of rows cz)"
proof -
  from assms have "zwd (Some cz) =
      Some \<lparr>zt_total_employees = sum_list (map total_employees (zone_rows (Some cz) rows)),
            zt_present = sum_list (map present (zone_rows (Some cz) rows)),
            zt_absent = sum_list (map absent (zone_rows (Some cz) rows)),
            zt_on_leave = sum_list (map on_leave (zone_rows (Some cz) rows))\<rparr>"
    by (simp add: zwd_ok_def)
  then show ?thesis
    by (simp add: zone_total_row_def total_row_of_def percentage_eq sum_marked)
qed

lemma zone_total_row_missing:
  assumes "zwd_ok rows zwd" and "zone_rows (Some cz) rows = []"
  shows "zone_total_row zwd cz = Inl KeyError"
  using assms by (simp add: zone_total_row_def zwd_ok_def)

lemma leaving_None [simp]: "leaving None z = []"
  by (simp add: leaving_def)

lemma leaving_Some [simp]: "leaving (Some cz) z = (if z = Some cz then [] else [cz])"
  by (simp add: leaving_def)

lemma leaving_same [simp]: "leaving z z = []"
  by (cases z) simp_all

lemma emitted_zones: "cz \<in> set (emitted cur zs) \<Longrightarrow> Some cz = cur \<or> Some cz \<in> set zs"
proof (induction zs arbitrary: cur)
  case Nil
  then show ?case by simp
next
  case (Cons z zs)
  have "cur = Some cz \<or> cz \<in> set (emitted z zs)"
  proof (cases cur)
    case None
    with Cons.prems show ?thesis by simp
  next
    case (Some c)
    with Cons.prems show ?thesis by (cases "z = Some c") auto
  qed
  then consider "cur = Some cz" | "cz \<in> set (emitted z zs)"
    by blast
  then show ?case
  proof cases
    case 1
    then show ?thesis by simp
  next
    case 2
    from Cons.IH [OF 2] show ?thesis by auto
  qed
qed

lemma zone_loop_mset:
  assumes "zwd_ok all zwd"
    and "zone ` set rs \<subseteq> zone ` set all"
    and "cur = None \<or> cur \<in> zone ` set all"
  shows "\<exists>fin'. zone_loop zwd rs cur fin = Inr (last (cur # map zone rs), fin')
           \<and> mset fin' = mset fin + mset rs
                + mset (map (total_row_of all) (emitted cur (map zone rs)))"
  using assms(2,3)
proof (induction rs arbitrary: cur fin)
  case Nil
  then show ?case by simp
next
  case (Cons r rs)
  have sub: "zone ` set rs \<subseteq> zone ` set all" and zr: "zone r \<in> zone ` set all"
    using Cons.prems(1) by auto
  have nxt: "zone r = None \<or> zone r \<in> zone ` set all" using zr by simp
  show ?case
  proof (cases "zone r = cur")
    case True
    from Cons.IH [OF sub Cons.prems(2), of "fin @ [r]"] True show ?thesis
      by auto
  next
    case False
    show ?thesis
    proof (cases cur)
      case None
      from Cons.IH [OF sub nxt, of "fin @ [r]"] False None show ?thesis
        by auto
    next
      case (Some cz)
      with Cons.prems(2) have "zone_rows (Some cz) all \<noteq> []"
        by (simp add: zone_rows_Nil_iff)
      with assms(1) have t: "zone_total_row zwd cz = Inr (total_row_of all cz)"
        by (rule zone_total_row_ok)
      from Cons.IH [OF sub nxt, of "fin @ [total_row_of all cz] @ [r]"] False Some t
      show ?thesis
        by auto
    qed
  qed
qed

lemma grand_total_row_eq:
  "grand_total_row rows =
     Inr \<lparr>zone = Some ''Grand Total'', point = [],
          total_employees = sum_list (map total_employees rows),
          present = sum_list (map present rows),
          absent = sum_list (map absent rows),
          on_leave = sum_list (map on_leave rows),
          attendance_percentage = pct (sum_list (map present rows)) (sum_list (map marked rows))\<rparr>"
  by (simp add: grand_total_row_def percentage_eq sum_marked Let_def)

lemma last_zone_in:
  assumes "last (None # zs) = Some cz"
  shows "Some cz \<in> set zs"
proof (cases zs)
  case Nil
  with assms show ?thesis by simp
next
  case (Cons z zs')
  with assms have "last zs = Some cz" by simp
  moreover from Cons have "zs \<noteq> []" by simp
  ultimately show ?thesis using last_in_set by metis
qed

lemma add_totals_shape:
  assumes ok: "zwd_ok all zwd" and sub: "zone ` set rs \<subseteq> zone ` set all"
  shows "\<exists>fin G. add_totals zwd rs = Inr (fin @ [G])
           \<and> grand_total_row rs = Inr G
           \<and> mset fin = mset rs + mset (map (total_row_of all) (total_zones (map zone rs)))"
proof -
  define cur where "cur = last (None # map zone rs)"
  define tail where
    "tail = (case cur of None \<Rightarrow> [] | Some cz \<Rightarrow> if cz = [] then [] else [cz])"
  from zone_loop_mset [OF ok sub, of None "[]"] obtain fin1 where
    loop: "zone_loop zwd rs None [] = Inr (cur, fin1)"
    and m1: "mset fin1 = mset rs + mset (map (total_row_of all) (emitted None (map zone rs)))"
    unfolding cur_def by auto
  obtain G where G: "grand_total_row rs = Inr G"
    by (simp add: grand_total_row_eq)
  have lz: "last_zone_total zwd cur fin1 = Inr (fin1 @ map (total_row_of all) tail)"
  proof (cases cur)
    case None
    then show ?thesis by (simp add: last_zone_total_def tail_def)
  next
    case (Some cz)
    then have "Some cz \<in> set (map zone rs)"
      unfolding cur_def by (rule last_zone_in)
    with sub have "zone_rows (Some cz) all \<noteq> []"
      by (auto simp: zone_rows_Nil_iff)
    with ok have "zone_total_row zwd cz = Inr (total_row_of all cz)"
      by (rule zone_total_row_ok)
    with Some show ?thesis by (simp add: last_zone_total_def tail_def)
  qed
  have run: "add_totals zwd rs = Inr ((fin1 @ map (total_row_of all) tail) @ [G])"
    by (simp add: add_totals_def loop lz G)
  have tz: "total_zones (map zone rs) = emitted None (map zone rs) @ tail"
    by (simp only: total_zones_def tail_def cur_def)
  have "mset (fin1 @ map (total_row_of all) tail)
      = mset rs + mset (map (total_row_of all) (total_zones (map zone rs)))"
    by (simp add: m1 tz)
  with run G show ?thesis by blast
qed

lemma report_shape:
  assumes "point_rows db f = Inr (rows, zwd)"
  shows "\<exists>fin G. get_point_wise_attendance db f = Inr (fin @ [G])
           \<and> grand_total_row (sort_rows rows) = Inr G
           \<and> mset fin = mset rows
               + mset (map (total_row_of rows) (total_zones (map zone (sort_rows rows))))"
proof -
  have ok: "zwd_ok rows zwd" using assms by (rule point_rows_inv)
  have "set (sort_rows rows) = set rows" by (simp add: sort_rows_def)
  then have sub: "zone ` set (sort_rows rows) \<subseteq> zone ` set rows" by simp
  from add_totals_shape [OF ok sub] obtain fin G where
    "add_totals zwd (sort_rows rows) = Inr (fin @ [G])"
    "grand_total_row (sort_rows rows) = Inr G"
    "mset fin = mset (sort_rows rows)
       + mset (map (total_row_of rows) (total_zones (map zone (sort_rows rows))))"
    by blast
  moreover have "mset (sort_rows rows) = mset rows" by (simp add: sort_rows_def)
  moreover have "get_point_wise_attendance db f = add_totals zwd (sort_rows rows)"
    using assms by (simp add: get_point_wise_attendance_def)
  ultimately show ?thesis by auto
qed

text \<open>The report raises nothing: no key is missing and no division is by zero.\<close>

lemma report_total: "\<exists>final. get_point_wise_attendance db f = Inr final \<and> final \<noteq> []"
proof -
  from point_rows_total obtain rows zwd where "point_rows db f = Inr (rows, zwd)"
    by blast
  from report_shape [OF this] show ?thesis by auto
qed

lemma total_zones_in:
  assumes "cz \<in> set (total_zones zs)"
  shows "Some cz \<in> set zs"
proof -
  from assms consider "cz \<in> set (emitted None zs)" | "last (None # zs) = Some cz"
    by (auto simp: total_zones_def split: option.splits if_splits)
  then show ?thesis
  proof cases
    case 1
    from emitted_zones [OF 1] show ?thesis by simp
  next
    case 2
    then show ?thesis by (rule last_zone_in)
  qed
qed


subsection \<open>The percentage of a zone total\<close>

lemma scenario_rows:
  "rows_of (point_rows scenario_db scenario_filters) = Some [scenario_p1, scenario_p2]"
  by code_simp

lemma scenario_report:
  "get_point_wise_attendance scenario_db scenario_filters
     = Inr [scenario_p1, scenario_p2, scenario_zone_total, scenario_grand_total]"
  by code_simp

lemma scenario_mean:
  "sum_list (map attendance_percentage (zone_rows (Some ''Z1'') [scenario_p1, scenario_p2]))
     / of_nat (length (zone_rows (Some ''Z1'') [scenario_p1, scenario_p2]))
   = 2345624805922133 / 70368744177664"
  by (simp add: zone_rows_def scenario_p1_def scenario_p2_def)

lemma emitted_tail: "x \<in> set (emitted y ys) \<Longrightarrow> x \<in> set (emitted cur (y # ys))"
  by simp

lemma emitted_change: "y \<noteq> Some z \<Longrightarrow> z \<in> set (emitted (Some z) (y # ys))"
  by simp

lemma emitted_same: "emitted (Some z) (Some z # ys) = emitted (Some z) ys"
  by simp

lemma emitted_own: "z \<in> set (emitted (Some z) us) \<or> last (Some z # us) = Some z"
proof (induction us)
  case Nil
  then show ?case by simp
next
  case (Cons u us)
  show ?case
  proof (cases "u = Some z")
    case True
    have "last (Some z # u # us) = last (Some z # us)" using True by simp
    with Cons True show ?thesis by (simp only: emitted_same)
  next
    case False
    then show ?thesis using emitted_change by blast
  qed
qed

lemma emitted_or_last:
  "Some z \<in> set zs \<Longrightarrow> z \<in> set (emitted cur zs) \<or> last (cur # zs) = Some z"
proof (induction zs arbitrary: cur)
  case Nil
  then show ?case by simp
next
  case (Cons y ys)
  have l: "last (cur # y # ys) = last (y # ys)" by simp
  have "z \<in> set (emitted y ys) \<or> last (y # ys) = Some z"
  proof (cases "Some z \<in> set ys")
    case True
    from Cons.IH [OF True] show ?thesis .
  next
    case False
    with Cons.prems have "y = Some z" by simp
    with emitted_own [of z ys] show ?thesis by simp
  qed
  with l show ?case using emitted_tail by metis
qed

lemma named_zone_in_total_zones:
  assumes "z \<noteq> []" and "Some z \<in> set zs"
  shows "z \<in> set (total_zones zs)"
proof -
  from emitted_or_last [OF assms(2), of None]
  consider "z \<in> set (emitted None zs)" | "last (None # zs) = Some z" by blast
  then show ?thesis
  proof cases
    case 1
    then show ?thesis by (simp add: total_zones_def)
  next
    case 2
    with assms(1) show ?thesis by (simp add: total_zones_def)
  qed
qed

text \<open>
  C4, as the code has it. For every zone with a name that is not empty and at least one
  point row, the report has, before the grand total, a total row named after the zone
  that carries the sums of present, absent and on leave over the point rows of the zone;
  its percentage is 0 when nothing is marked and otherwise the float that Python
  computes from the sums, the quotient of summed present by summed marked rounded to a
  float, times 100, rounded again. Every row with an empty point before the grand total
  is such a total row of a zone that has a point row. The percentage comes from the sums
  and not from the percentages of the points: on the two-point site the total of Z1
  shows 40 while the mean of the two point percentages is about 33.33.
\<close>

theorem zone_total_percentage_rounded:
  assumes "point_rows db f = Inr (rows, zwd)"
    and "get_point_wise_attendance db f = Inr final"
  shows "(\<forall>z. z \<noteq> [] \<and> zone_rows (Some z) rows \<noteq> [] \<longrightarrow>
            (\<exists>t\<in>set (butlast final). zone t = Some (z @ '' Total'') \<and> point t = []
               \<and> present t = sum_list (map present (zone_rows (Some z) rows))
               \<and> absent t = sum_list (map absent (zone_rows (Some z) rows))
               \<and> on_leave t = sum_list (map on_leave (zone_rows (Some z) rows))
               \<and> attendance_percentage t =
                   (if sum_list (map marked (zone_rows (Some z) rows)) = 0 then 0
                    else round64 (round64 (of_nat (sum_list (map present (zone_rows (Some z) rows)))
                                    / of_nat (sum_list (map marked (zone_rows (Some z) rows))))
                                  * 100))))
       \<and> (\<forall>t\<in>set (butlast final). point t = [] \<longrightarrow>
            (\<exists>z. zone t = Some (z @ '' Total'') \<and> zone_rows (Some z) rows \<noteq> []
               \<and> present t = sum_list (map present (zone_rows (Some z) rows))
               \<and> absent t = sum_list (map absent (zone_rows (Some z) rows))
               \<and> on_leave t = sum_list (map on_leave (zone_rows (Some z) rows))
               \<and> attendance_percentage t =
                   (if sum_list (map marked (zone_rows (Some z) rows)) = 0 then 0
                    else round64 (round64 (of_nat (sum_list (map present (zone_rows (Some z) rows)))
                                    / of_nat (sum_list (map marked (zone_rows (Some z) rows))))
                                  * 100))))
       \<and> (get_point_wise_attendance scenario_db scenario_filters
             = Inr [scenario_p1, scenario_p2, scenario_zone_total, scenario_grand_total]
          \<and> attendance_percentage scenario_zone_total = 40
          \<and> sum_list (map attendance_percentage
                        (zone_rows (Some ''Z1'') [scenario_p1, scenario_p2]))
              / of_nat (length (zone_rows (Some ''Z1'') [scenario_p1, scenario_p2]))
             = 2345624805922133 / 70368744177664
          \<and> attendance_percentage scenario_zone_total
              \<noteq> sum_list (map attendance_percentage
                            (zone_rows (Some ''Z1'') [scenario_p1, scenario_p2]))
                 / of_nat (length (zone_rows (Some ''Z1'') [scenario_p1, scenario_p2])))"
proof (intro conjI)
  let ?tz = "total_zones (map zone (sort_rows rows))"
  from report_shape [OF assms(1)] assms(2) obtain fin G where
    final: "final = fin @ [G]"
    and m: "mset fin = mset rows + mset (map (total_row_of rows) ?tz)"
    by auto
  have bl: "butlast final = fin" by (simp add: final)
  have props: "zone (total_row_of rows z) = Some (z @ '' Total'')
      \<and> point (total_row_of rows z) = []
      \<and> present (total_row_of rows z) = sum_list (map present (zone_rows (Some z) rows))
      \<and> absent (total_row_of rows z) = sum_list (map absent (zone_rows (Some z) rows))
      \<and> on_leave (total_row_of rows z) = sum_list (map on_leave (zone_rows (Some z) rows))
      \<and> attendance_percentage (total_row_of rows z) =
          (if sum_list (map marked (zone_rows (Some z) rows)) = 0 then 0
           else round64 (round64 (of_nat (sum_list (map present (zone_rows (Some z) rows)))
                           / of_nat (sum_list (map marked (zone_rows (Some z) rows))))
                         * 100))" for z
    by (simp add: total_row_of_def pct_def)
  show "\<forall>z. z \<noteq> [] \<and> zone_rows (Some z) rows \<noteq> [] \<longrightarrow>
            (\<exists>t\<in>set (butlast final). zone t = Some (z @ '' Total'') \<and> point t = []
               \<and> present t = sum_list (map present (zone_rows (Some z) rows))
               \<and> absent t = sum_list (map absent (zone_rows (Some z) rows))
               \<and> on_leave t = sum_list (map on_leave (zone_rows (Some z) rows))
               \<and> attendance_percentage t =
                   (if sum_list (map marked (zone_rows (Some z) rows)) = 0 then 0
                    else round64 (round64 (of_nat (sum_list (map present (zone_rows (Some z) rows)))
                                    / of_nat (sum_list (map marked (zone_rows (Some z) rows))))
                                  * 100)))"
  proof (intro allI impI)
    fix z assume z: "z \<noteq> [] \<and> zone_rows (Some z) rows \<noteq> []"
    then have "Some z \<in> zone ` set rows" by (simp add: zone_rows_Nil_iff)
    then have "Some z \<in> set (map zone (sort_rows rows))" by (simp add: sort_rows_def)
    with z have "z \<in> set ?tz" by (intro named_zone_in_total_zones) simp_all
    then have "total_row_of rows z \<in># mset (map (total_row_of rows) ?tz)" by simp
    with m have "total_row_of rows z \<in># mset fin" by simp
    then have "total_row_of rows z \<in> set (butlast final)" by (simp add: bl)
    with props [of z] show "\<exists>t\<in>set (butlast final). zone t = Some (z @ '' Total'') \<and> point t = []
               \<and> present t = sum_list (map present (zone_rows (Some z) rows))
               \<and> absent t = sum_list (map absent (zone_rows (Some z) rows))
               \<and> on_leave t = sum_list (map on_leave (zone_rows (Some z) rows))
               \<and> attendance_percentage t =
                   (if sum_list (map marked (zone_rows (Some z) rows)) = 0 then 0
                    else round64 (round64 (of_nat (sum_list (map present (zone_rows (Some z) rows)))
                                    / of_nat (sum_list (map marked (zone_rows (Some z) rows))))
                                  * 100))"
      by blast
  qed
  show "\<forall>t\<in>set (butlast final). point t = [] \<longrightarrow>
            (\<exists>z. zone t = Some (z @ '' Total'') \<and> zone_rows (Some z) rows \<noteq> []
               \<and> present t = sum_list (map present (zone_rows (Some z) rows))
               \<and> absent t = sum_list (map absent (zone_rows (Some z) rows))
               \<and> on_leave t = sum_list (map on_leave (zone_rows (Some z) rows))
               \<and> attendance_percentage t =
                   (if sum_list (map marked (zone_rows (Some z) rows)) = 0 then 0
                    else round64 (round64 (of_nat (sum_list (map present (zone_rows (Some z) rows)))
                                    / of_nat (sum_list (map marked (zone_rows (Some z) rows))))
                                  * 100)))"
  proof (intro ballI impI)
    fix t assume t: "t \<in> set (butlast final)" and pt: "point t = []"
    from t bl have "t \<in># mset fin" by simp
    with m have "t \<in> set rows \<or> t \<in> total_row_of rows ` set ?tz" by auto
    moreover from point_rows_inv(2) [OF assms(1)] pt have "t \<notin> set rows" by blast
    ultimately obtain z where z: "z \<in> set ?tz" and tz: "t = total_row_of rows z"
      by blast
    from total_zones_in [OF z] have "Some z \<in> zone ` set rows"
      by (simp add: sort_rows_def)
    then have ne: "zone_rows (Some z) rows \<noteq> []"
      by (simp add: zone_rows_Nil_iff)
    from props [of z] ne show "\<exists>z. zone t = Some (z @ '' Total'') \<and> zone_rows (Some z) rows \<noteq> []
               \<and> present t = sum_list (map present (zone_rows (Some z) rows))
               \<and> absent t = sum_list (map absent (zone_rows (Some z) rows))
               \<and> on_leave t = sum_list (map on_leave (zone_rows (Some z) rows))
               \<and> attendance_percentage t =
                   (if sum_list (map marked (zone_rows (Some z) rows)) = 0 then 0
                    else round64 (round64 (of_nat (sum_list (map present (zone_rows (Some z) rows)))
                                    / of_nat (sum_list (map marked (zone_rows (Some z) rows))))
                                  * 100))"
      unfolding tz by blast
  qed
  show "get_point_wise_attendance scenario_db scenario_filters
             = Inr [scenario_p1, scenario_p2, scenario_zone_total, scenario_grand_total]"
    by (rule scenario_report)
  show ap: "attendance_percentage scenario_zone_total = 40"
    by (simp add: scenario_zone_total_def)
  show "sum_list (map attendance_percentage
                        (zone_rows (Some ''Z1'') [scenario_p1, scenario_p2]))
              / of_nat (length (zone_rows (Some ''Z1'') [scenario_p1, scenario_p2]))
             = 2345624805922133 / 70368744177664"
    by (rule scenario_mean)
  show "attendance_percentage scenario_zone_total
              \<noteq> sum_list (map attendance_percentage
                            (zone_rows (Some ''Z1'') [scenario_p1, scenario_p2]))
                 / of_nat (length (zone_rows (Some ''Z1'') [scenario_p1, scenario_p2]))"
    by (simp only: scenario_mean ap)
qed

theorem zone_total_percentage_rounded_witness:
  "\<exists>zwd. point_rows scenario_db scenario_filters = Inr ([scenario_p1, scenario_p2], zwd)
     \<and> get_point_wise_attendance scenario_db scenario_filters
         = Inr [scenario_p1, scenario_p2, scenario_zone_total, scenario_grand_total]
     \<and> ''Z1'' \<noteq> []
     \<and> zone_rows (Some ''Z1'') [scenario_p1, scenario_p2] = [scenario_p1, scenario_p2]
     \<and> (\<exists>t\<in>set (butlast [scenario_p1, scenario_p2, scenario_zone_total, scenario_grand_total]).
            zone t = Some (''Z1'' @ '' Total'') \<and> point t = []
          \<and> present t = sum_list (map present (zone_rows (Some ''Z1'') [scenario_p1, scenario_p2]))
          \<and> attendance_percentage t =
              (if sum_list (map marked (zone_rows (Some ''Z1'') [scenario_p1, scenario_p2])) = 0
               then 0
               else round64 (round64
                      (of_nat (sum_list (map present
                                 (zone_rows (Some ''Z1'') [scenario_p1, scenario_p2])))
                       / of_nat (sum_list (map marked
                                   (zone_rows (Some ''Z1'') [scenario_p1, scenario_p2]))))
                     * 100)))"
proof -
  from rows_of_Some [OF scenario_rows] obtain zwd where
    eq: "point_rows scenario_db scenario_filters = Inr ([scenario_p1, scenario_p2], zwd)"
    by blast
  have zr: "zone_rows (Some ''Z1'') [scenario_p1, scenario_p2] = [scenario_p1, scenario_p2]"
    by (simp add: zone_rows_def scenario_p1_def scenario_p2_def)
  have pre: "''Z1'' \<noteq> [] \<and> zone_rows (Some ''Z1'') [scenario_p1, scenario_p2] \<noteq> []"
    by (simp add: zr)
  from zone_total_percentage_rounded [OF eq scenario_report] pre
  have ex: "\<exists>t\<in>set (butlast [scenario_p1, scenario_p2, scenario_zone_total, scenario_grand_total]).
            zone t = Some (''Z1'' @ '' Total'') \<and> point t = []
          \<and> present t = sum_list (map present (zone_rows (Some ''Z1'') [scenario_p1, scenario_p2]))
          \<and> attendance_percentage t =
              (if sum_list (map marked (zone_rows (Some ''Z1'') [scenario_p1, scenario_p2])) = 0
               then 0
               else round64 (round64
                      (of_nat (sum_list (map present
                                 (zone_rows (Some ''Z1'') [scenario_p1, scenario_p2])))
                       / of_nat (sum_list (map marked
                                   (zone_rows (Some ''Z1'') [scenario_p1, scenario_p2]))))
                     * 100))"
    by blast
  have n: "''Z1'' \<noteq> []" by simp
  show ?thesis
    by (rule exI [of _ zwd]) (intro conjI eq scenario_report n zr ex)
qed

text \<open>
  C4 as written fails. With eleven present and nine absent in the only point of zone Z1,
  the total row of Z1 shows the float \<open>11 / 20 * 100\<close>, which is \<open>55 + 2 ^ - 47\<close>, while
  \<open>100 * 11 / 20\<close> is 55.
\<close>

theorem exact_percentage_counterexample:
  "get_point_wise_attendance eleven_db (resolve_companies eleven_db demo_filters)
     = Inr [eleven_p1, eleven_zone_total, eleven_grand_total]
   \<and> zone_rows (Some ''Z1'') [eleven_p1] = [eleven_p1]
   \<and> zone eleven_zone_total = Some ''Z1 Total''
   \<and> attendance_percentage eleven_zone_total = 55 + 1 / 2 ^ 47
   \<and> 100 * rat_of_nat (sum_list (map present (zone_rows (Some ''Z1'') [eleven_p1])))
        / rat_of_nat (sum_list (map marked (zone_rows (Some ''Z1'') [eleven_p1]))) = 55
   \<and> attendance_percentage eleven_zone_total
       \<noteq> 100 * rat_of_nat (sum_list (map present (zone_rows (Some ''Z1'') [eleven_p1])))
            / rat_of_nat (sum_list (map marked (zone_rows (Some ''Z1'') [eleven_p1])))"
proof -
  have run: "get_point_wise_attendance eleven_db (resolve_companies eleven_db demo_filters)
      = Inr [eleven_p1, eleven_zone_total, eleven_grand_total]"
    by code_simp
  have zr: "zone_rows (Some ''Z1'') [eleven_p1] = [eleven_p1]"
    by (simp add: zone_rows_def eleven_p1_def)
  have z: "zone eleven_zone_total = Some ''Z1 Total''"
    by (simp add: eleven_zone_total_def)
  have ap: "attendance_percentage eleven_zone_total = 55 + 1 / 2 ^ 47"
    by (simp add: eleven_zone_total_def)
  have ex: "100 * rat_of_nat (sum_list (map present (zone_rows (Some ''Z1'') [eleven_p1])))
        / rat_of_nat (sum_list (map marked (zone_rows (Some ''Z1'') [eleven_p1]))) = 55"
    by (simp add: zr) (simp add: eleven_p1_def marked_def)
  have ne: "attendance_percentage eleven_zone_total
       \<noteq> 100 * rat_of_nat (sum_list (map present (zone_rows (Some ''Z1'') [eleven_p1])))
            / rat_of_nat (sum_list (map marked (zone_rows (Some ''Z1'') [eleven_p1])))"
    by (simp only: ex ap) simp
  show ?thesis
    by (intro conjI run zr z ap ex ne)
qed


subsection \<open>The totals of execute\<close>

lemma emitted_Some_adj:
  "emitted (Some c) (map Some ks) @ [last (c # ks)] = remdups_adj (c # ks)"
proof (induction ks arbitrary: c)
  case Nil
  then show ?case by simp
next
  case (Cons k ks)
  from Cons.IH [of k] show ?case by simp
qed

lemma sorted_distinct_remdups_adj:
  fixes xs :: "string list"
  shows "sorted xs \<Longrightarrow> distinct (remdups_adj xs)"
  by (induction xs rule: remdups_adj.induct) auto

lemma total_zones_sorted:
  assumes "ks \<noteq> []" and "last ks \<noteq> []"
  shows "total_zones (map Some ks) = remdups_adj ks"
proof -
  from assms(1) obtain k ks' where ks: "ks = k # ks'" by (cases ks) auto
  have l: "last (None # map Some ks) = Some (last ks)"
    using assms(1) by (simp add: last_map)
  have "total_zones (map Some ks) = emitted (Some k) (map Some ks') @ [last ks]"
    unfolding total_zones_def l using assms(2) by (simp add: ks)
  also have "\<dots> = remdups_adj ks"
    using emitted_Some_adj [of k ks'] by (simp add: ks)
  finally show ?thesis .
qed

lemma sum_filter_disjoint:
  fixes f :: "'a \<Rightarrow> nat"
  assumes "\<And>x. \<not> (P x \<and> Q x)"
  shows "sum_list (map f (filter P xs)) + sum_list (map f (filter Q xs))
       = sum_list (map f (filter (\<lambda>x. P x \<or> Q x) xs))"
  using assms by (induction xs) auto

lemma sum_zone_partition:
  fixes f :: "row \<Rightarrow> nat"
  assumes "distinct cs"
  shows "sum_list (map (\<lambda>c. sum_list (map f (zone_rows (Some c) rows))) cs)
       = sum_list (map f (filter (\<lambda>r. zone r \<in> Some ` set cs) rows))"
  using assms
proof (induction cs)
  case Nil
  then show ?case by simp
next
  case (Cons c cs)
  then have IH: "sum_list (map (\<lambda>c. sum_list (map f (zone_rows (Some c) rows))) cs)
      = sum_list (map f (filter (\<lambda>r. zone r \<in> Some ` set cs) rows))"
    and c: "c \<notin> set cs"
    by simp_all
  have dis: "\<not> (zone x = Some c \<and> zone x \<in> Some ` set cs)" for x
    using c by auto
  have step: "sum_list (map f (filter (\<lambda>r. zone r = Some c) rows))
        + sum_list (map f (filter (\<lambda>r. zone r \<in> Some ` set cs) rows))
      = sum_list (map f (filter (\<lambda>r. zone r = Some c \<or> zone r \<in> Some ` set cs) rows))"
    by (rule sum_filter_disjoint) (rule dis)
  have pred: "(\<lambda>r. zone r = Some c \<or> zone r \<in> Some ` set cs)
      = (\<lambda>r. zone r \<in> Some ` set (c # cs))"
    by auto
  have "sum_list (map (\<lambda>c. sum_list (map f (zone_rows (Some c) rows))) (c # cs))
      = sum_list (map f (zone_rows (Some c) rows))
        + sum_list (map (\<lambda>c. sum_list (map f (zone_rows (Some c) rows))) cs)"
    by simp
  also have "\<dots> = sum_list (map f (filter (\<lambda>r. zone r = Some c) rows))
        + sum_list (map f (filter (\<lambda>r. zone r \<in> Some ` set cs) rows))"
    unfolding IH by (simp add: zone_rows_def)
  also have "\<dots> = sum_list (map f (filter (\<lambda>r. zone r \<in> Some ` set (c # cs)) rows))"
    by (simp only: step pred)
  finally show ?case .
qed

text \<open>
  With every point row in a zone that is a string, and at least one zone name that is not
  empty, the zones that get a total row are the zones of the point rows, each once.
\<close>

lemma total_zones_cover:
  assumes all_some: "\<forall>r\<in>set rows. zone r \<noteq> None"
    and named: "\<exists>r\<in>set rows. zone r \<noteq> Some []"
  shows "distinct (total_zones (map zone (sort_rows rows)))"
    and "Some ` set (total_zones (map zone (sort_rows rows))) = zone ` set rows"
proof -
  let ?s = "sort_rows rows"
  let ?ks = "map (\<lambda>r. fst (row_key r)) ?s"
  have set_s: "set ?s = set rows" by (simp add: sort_rows_def)
  have zk: "zone r = Some (fst (row_key r))" if "r \<in> set rows" for r
    using all_some that by (cases "zone r") (auto simp: row_key_def)
  have zs: "map zone ?s = map Some ?ks"
    using zk set_s by simp
  have "sorted (map row_key ?s)" by (simp add: sort_rows_def)
  then have "sorted_wrt (\<lambda>x y. row_key x \<le> row_key y) ?s"
    by (simp only: sorted_map)
  then have "sorted_wrt (\<lambda>x y. fst (row_key x) \<le> fst (row_key y)) ?s"
    by (rule sorted_wrt_mono_rel [rotated]) (auto simp: less_eq_prod_def)
  then have srt: "sorted ?ks"
    by (simp only: sorted_map)
  from named obtain r where r: "r \<in> set rows" "zone r \<noteq> Some []" by blast
  with zk have k: "fst (row_key r) \<in> set ?ks" "fst (row_key r) \<noteq> []"
    using set_s by auto
  then have ne: "?ks \<noteq> []" by auto
  have "fst (row_key r) \<le> last ?ks"
  proof -
    from k(1) obtain i where i: "i < length ?ks" "?ks ! i = fst (row_key r)"
      by (auto simp: in_set_conv_nth)
    have "?ks ! i \<le> ?ks ! (length ?ks - 1)"
      using srt i(1) by (intro sorted_nth_mono) auto
    with i(2) ne show ?thesis by (simp add: last_conv_nth)
  qed
  with k(2) have lst: "last ?ks \<noteq> []" by auto
  have tz: "total_zones (map zone ?s) = remdups_adj ?ks"
    unfolding zs using ne lst by (rule total_zones_sorted)
  show "distinct (total_zones (map zone ?s))"
    unfolding tz using srt by (rule sorted_distinct_remdups_adj)
  have "Some ` set (remdups_adj ?ks) = set (map Some ?ks)" by (simp add: image_image)
  also have "\<dots> = zone ` set rows" using zs [symmetric] set_s by simp
  finally show "Some ` set (total_zones (map zone ?s)) = zone ` set rows"
    unfolding tz .
qed

lemma totals_sum_once:
  fixes f :: "row \<Rightarrow> nat"
  assumes "\<forall>r\<in>set rows. zone r \<noteq> None" and "\<exists>r\<in>set rows. zone r \<noteq> Some []"
  shows "sum_list (map (\<lambda>c. sum_list (map f (zone_rows (Some c) rows)))
                     (total_zones (map zone (sort_rows rows))))
       = sum_list (map f rows)"
proof -
  let ?tz = "total_zones (map zone (sort_rows rows))"
  from total_zones_cover [OF assms] have d: "distinct ?tz"
    and c: "Some ` set ?tz = zone ` set rows"
    by blast+
  have "filter (\<lambda>r. zone r \<in> Some ` set ?tz) rows = rows"
    unfolding c by (simp add: filter_id_conv)
  with sum_zone_partition [OF d, of f rows] show ?thesis by simp
qed

lemma execute_eq:
  assumes "get_point_wise_attendance db (resolve_companies db f) = Inr final"
  shows "execute db (Some f) =
      (let e = sum_list (map total_employees (butlast final));
           p = sum_list (map present (butlast final));
           a = sum_list (map absent (butlast final));
           l = sum_list (map on_leave (butlast final))
       in if p + a + l = 0
          then Inr \<lparr>rp_data = PointRows final, no_records = True, chart_values = [0, 0, 0],
                    summary = \<lparr>s_total_employees = e, s_present = 0, s_absent = 0,
                               s_on_leave = 0, s_attendance_percentage = 0\<rparr>\<rparr>
          else Inr \<lparr>rp_data = data_after_loop final
                                (designation_attendance db (resolve_companies db f)),
                    no_records = False, chart_values = [p, a, l],
                    summary = \<lparr>s_total_employees = e, s_present = p, s_absent = a,
                               s_on_leave = l, s_attendance_percentage = pct p (p + a + l)\<rparr>\<rparr>)"
  unfolding execute_def Let_def
  by (simp only: assms percentage_eq option.case sum.case)

lemma execute_totals:
  assumes "execute db (Some f) = Inr rep"
    and "get_point_wise_attendance db (resolve_companies db f) = Inr final"
  shows "s_present (summary rep) = sum_list (map present (butlast final))
       \<and> s_absent (summary rep) = sum_list (map absent (butlast final))
       \<and> s_on_leave (summary rep) = sum_list (map on_leave (butlast final))
       \<and> chart_values rep = [sum_list (map present (butlast final)),
                              sum_list (map absent (butlast final)),
                              sum_list (map on_leave (butlast final))]"
proof -
  define e where "e = sum_list (map total_employees (butlast final))"
  define p where "p = sum_list (map present (butlast final))"
  define a where "a = sum_list (map absent (butlast final))"
  define l where "l = sum_list (map on_leave (butlast final))"
  define d where "d = data_after_loop final (designation_attendance db (resolve_companies db f))"
  have ex: "execute db (Some f) =
      (if p + a + l = 0
       then Inr \<lparr>rp_data = PointRows final, no_records = True, chart_values = [0, 0, 0],
                 summary = \<lparr>s_total_employees = e, s_present = 0, s_absent = 0,
                            s_on_leave = 0, s_attendance_percentage = 0\<rparr>\<rparr>
       else Inr \<lparr>rp_data = d, no_records = False, chart_values = [p, a, l],
                 summary = \<lparr>s_total_employees = e, s_present = p, s_absent = a,
                            s_on_leave = l, s_attendance_percentage = pct p (p + a + l)\<rparr>\<rparr>)"
    unfolding e_def p_def a_def l_def d_def
    using execute_eq [OF assms(2)] by (simp only: Let_def)
  show ?thesis
  proof (cases "p + a + l = 0")
    case True
    with assms(1) ex have "rep = \<lparr>rp_data = PointRows final, no_records = True,
                 chart_values = [0, 0, 0],
                 summary = \<lparr>s_total_employees = e, s_present = 0, s_absent = 0,
                            s_on_leave = 0, s_attendance_percentage = 0\<rparr>\<rparr>"
      by simp
    moreover from True have "p = 0" "a = 0" "l = 0" by simp_all
    ultimately show ?thesis
      unfolding p_def a_def l_def by simp
  next
    case False
    with assms(1) ex have "rep = \<lparr>rp_data = d, no_records = False, chart_values = [p, a, l],
                 summary = \<lparr>s_total_employees = e, s_present = p, s_absent = a,
                            s_on_leave = l, s_attendance_percentage = pct p (p + a + l)\<rparr>\<rparr>"
      by (auto split: if_splits)
    then show ?thesis
      unfolding p_def a_def l_def by simp
  qed
qed

lemma mixed_execute: "execute mixed_db (Some demo_filters) = Inr mixed_report"
  by code_simp

lemma mixed_report_rows:
  "get_point_wise_attendance mixed_db (resolve_companies mixed_db demo_filters) = Inr mixed_rows"
  by code_simp

text \<open>
  C5. The panel and the chart of \<open>execute\<close> carry the sums of present, absent and on leave
  over all rows of the report of \<open>get_point_wise_attendance\<close> but the last, zone total
  rows included. When every point row has a zone that is a string and some zone name is
  not empty, every point row is covered by the total row of its zone, the report has a
  row of totals before the grand total, and the three values of the panel are twice
  those of the grand total row.
\<close>

theorem summary_counts_zone_totals_twice:
  assumes "execute db (Some f) = Inr rep"
    and "get_point_wise_attendance db (resolve_companies db f) = Inr final"
    and "point_rows db (resolve_companies db f) = Inr (rows, zwd)"
  shows "s_present (summary rep) = sum_list (map present (butlast final))
       \<and> s_absent (summary rep) = sum_list (map absent (butlast final))
       \<and> s_on_leave (summary rep) = sum_list (map on_leave (butlast final))
       \<and> chart_values rep
           = [s_present (summary rep), s_absent (summary rep), s_on_leave (summary rep)]
       \<and> ((\<forall>r\<in>set rows. zone r \<noteq> None) \<and> (\<exists>r\<in>set rows. zone r \<noteq> Some []) \<longrightarrow>
            (\<forall>r\<in>set rows. \<exists>z. zone r = Some z \<and> total_row_of rows z \<in> set (butlast final))
          \<and> (\<exists>t\<in>set (butlast final). point t = [])
          \<and> s_present (summary rep) = 2 * present (last final)
          \<and> s_absent (summary rep) = 2 * absent (last final)
          \<and> s_on_leave (summary rep) = 2 * on_leave (last final))"
proof -
  from execute_totals [OF assms(1,2)] have
    sp: "s_present (summary rep) = sum_list (map present (butlast final))"
    and sa: "s_absent (summary rep) = sum_list (map absent (butlast final))"
    and sl: "s_on_leave (summary rep) = sum_list (map on_leave (butlast final))"
    and ch: "chart_values rep = [sum_list (map present (butlast final)),
                              sum_list (map absent (butlast final)),
                              sum_list (map on_leave (butlast final))]"
    by blast+
  let ?tz = "total_zones (map zone (sort_rows rows))"
  from report_shape [OF assms(3)] assms(2) obtain fin G where
    final: "final = fin @ [G]"
    and G: "grand_total_row (sort_rows rows) = Inr G"
    and m: "mset fin = mset rows + mset (map (total_row_of rows) ?tz)"
    by auto
  have bl: "butlast final = fin" and la: "last final = G"
    by (simp_all add: final)
  have perm: "mset (sort_rows rows) = mset rows" by (simp add: sort_rows_def)
  have Gp: "present G = sum_list (map present rows)"
    and Ga: "absent G = sum_list (map absent rows)"
    and Gl: "on_leave G = sum_list (map on_leave rows)"
    using G sum_list_mset_cong [OF perm]
    by (auto simp: grand_total_row_eq)
  have split: "sum_list (map g fin)
      = sum_list (map g rows) + sum_list (map g (map (total_row_of rows) ?tz))"
    for g :: "row \<Rightarrow> nat"
    using m by (rule sum_list_mset_split)
  have "(\<forall>r\<in>set rows. \<exists>z. zone r = Some z \<and> total_row_of rows z \<in> set fin)
      \<and> (\<exists>t\<in>set fin. point t = [])
      \<and> sum_list (map present fin) = 2 * present G
      \<and> sum_list (map absent fin) = 2 * absent G
      \<and> sum_list (map on_leave fin) = 2 * on_leave G"
    if h1: "\<forall>r\<in>set rows. zone r \<noteq> None" and h2: "\<exists>r\<in>set rows. zone r \<noteq> Some []"
  proof -
    from total_zones_cover(2) [OF h1 h2]
    have cover: "Some ` set ?tz = zone ` set rows" .
    have in_fin: "total_row_of rows z \<in> set fin" if "z \<in> set ?tz" for z
    proof -
      from that have "total_row_of rows z \<in># mset (map (total_row_of rows) ?tz)" by simp
      with m have "total_row_of rows z \<in># mset fin" by simp
      then show ?thesis by simp
    qed
    have c1: "\<forall>r\<in>set rows. \<exists>z. zone r = Some z \<and> total_row_of rows z \<in> set fin"
    proof
      fix r assume "r \<in> set rows"
      then have "zone r \<in> Some ` set ?tz" using cover by blast
      then obtain z where "zone r = Some z" "z \<in> set ?tz" by auto
      with in_fin show "\<exists>z. zone r = Some z \<and> total_row_of rows z \<in> set fin" by blast
    qed
    from h2 obtain r where "r \<in> set rows" by blast
    with c1 obtain z where "total_row_of rows z \<in> set fin" by blast
    moreover have "point (total_row_of rows z) = []" by (simp add: total_row_of_def)
    ultimately have c2: "\<exists>t\<in>set fin. point t = []" by blast
    have tp: "sum_list (map present (map (total_row_of rows) ?tz)) = sum_list (map present rows)"
      using totals_sum_once [OF h1 h2, of present]
      by (simp add: total_row_of_def comp_def)
    have ta: "sum_list (map absent (map (total_row_of rows) ?tz)) = sum_list (map absent rows)"
      using totals_sum_once [OF h1 h2, of absent]
      by (simp add: total_row_of_def comp_def)
    have tl: "sum_list (map on_leave (map (total_row_of rows) ?tz))
        = sum_list (map on_leave rows)"
      using totals_sum_once [OF h1 h2, of on_leave]
      by (simp add: total_row_of_def comp_def)
    have "sum_list (map present fin) = 2 * present G"
      unfolding split tp Gp by simp
    moreover have "sum_list (map absent fin) = 2 * absent G"
      unfolding split ta Ga by simp
    moreover have "sum_list (map on_leave fin) = 2 * on_leave G"
      unfolding split tl Gl by simp
    ultimately show ?thesis using c1 c2 by blast
  qed
  then show ?thesis
    unfolding sp sa sl ch bl la by blast
qed

theorem summary_counts_zone_totals_twice_witness:
  "\<exists>zwd. point_rows mixed_db (resolve_companies mixed_db demo_filters)
            = Inr ([mixed_pb, mixed_pa, mixed_pc], zwd)
     \<and> get_point_wise_attendance mixed_db (resolve_companies mixed_db demo_filters)
         = Inr mixed_rows
     \<and> execute mixed_db (Some demo_filters) = Inr mixed_report
     \<and> map zone [mixed_pb, mixed_pa, mixed_pc] = [Some ''South'', Some ''North'', Some []]
     \<and> s_present (summary mixed_report) = 4
     \<and> present (last mixed_rows) = 2
     \<and> s_present (summary mixed_report) = 2 * present (last mixed_rows)
     \<and> s_absent (summary mixed_report) = 2 * absent (last mixed_rows)
     \<and> s_on_leave (summary mixed_report) = 2 * on_leave (last mixed_rows)
     \<and> chart_values mixed_report
         = [s_present (summary mixed_report), s_absent (summary mixed_report),
            s_on_leave (summary mixed_report)]"
proof -
  from rows_of_Some [OF mixed_point_rows] obtain zwd where
    eq: "point_rows mixed_db (resolve_companies mixed_db demo_filters)
      = Inr ([mixed_pb, mixed_pa, mixed_pc], zwd)"
    by blast
  have zs: "map zone [mixed_pb, mixed_pa, mixed_pc] = [Some ''South'', Some ''North'', Some []]"
    by (simp add: mixed_pb_def mixed_pa_def mixed_pc_def)
  have h1: "\<forall>r\<in>set [mixed_pb, mixed_pa, mixed_pc]. zone r \<noteq> None"
    by (simp add: mixed_pb_def mixed_pa_def mixed_pc_def)
  have h2: "\<exists>r\<in>set [mixed_pb, mixed_pa, mixed_pc]. zone r \<noteq> Some []"
    by (simp add: mixed_pb_def mixed_pa_def mixed_pc_def)
  from summary_counts_zone_totals_twice [OF mixed_execute mixed_report_rows eq] h1 h2
  have twice: "s_present (summary mixed_report) = 2 * present (last mixed_rows)"
    "s_absent (summary mixed_report) = 2 * absent (last mixed_rows)"
    "s_on_leave (summary mixed_report) = 2 * on_leave (last mixed_rows)"
    and ch: "chart_values mixed_report
         = [s_present (summary mixed_report), s_absent (summary mixed_report),
            s_on_leave (summary mixed_report)]"
    by blast+
  have v: "s_present (summary mixed_report) = 4" "present (last mixed_rows) = 2"
    by (simp_all add: mixed_report_def mixed_rows_def)
  show ?thesis
    by (intro exI conjI) (rule eq mixed_report_rows mixed_execute zs v twice ch)+
qed

text \<open>
  What \<open>execute\<close> hands back as \<open>data\<close> on that site is not the list of rows: the loop
  over the designations has bound the name to the entry of the last designation.
\<close>

lemma mixed_returned_data:
  "rp_data mixed_report
     = DesignationEntry \<lparr>de_total = 4, de_present = 2, de_absent = 1, de_on_leave = 1,
                           de_marked = 4\<rparr>"
  by (simp add: mixed_report_def)


section \<open>Properties of the farmer visit endpoint\<close>

lemma create_farmer_visit_refused: "\<not> params_compile create_farmer_visit_params"
  by (simp add: create_farmer_visit_params_def)

lemma create_farmer_visit_never_runs:
  "create_farmer_visit env st farmer_name farmer_create_detail vtd = Inl SyntaxError"
  by (simp add: create_farmer_visit_def create_farmer_visit_refused)

lemma create_visit_failed:
  assumes "check_insert env flds \<noteq> None
           \<or> check_submit env \<lparr>doc_name = name_doc env st flds, doc_fields = flds,
                                 docstatus = 0\<rparr> \<noteq> None"
    and "flds = dict_merge [(''doctype'', ''Visit Tracker''), (''farmer'', farmer),
                            (''visited_by'', employee)] vtd"
  shows "e_code (snd (create_visit env st employee farmer vtd)) = ''VISIT_CREATION_FAILED''
       \<and> e_http_status_code (snd (create_visit env st employee farmer vtd)) = 400
       \<and> \<not> e_success (snd (create_visit env st employee farmer vtd))
       \<and> e_status (snd (create_visit env st employee farmer vtd)) = ''error''
       \<and> http_status_code (fst (create_visit env st employee farmer vtd)) = Some 400
       \<and> set (documents st) \<subseteq> set (documents (fst (create_visit env st employee farmer vtd)))"
  using assms
  by (auto simp: create_visit_def insert_doc_def submit_doc_def set_status_def Let_def
      error_envelope_def split: sum.splits option.splits prod.splits)

text \<open>
  The body alone does what C9 describes: when the verifier accepts, the farmer document
  is inserted, and then the insert of the visit raises, or succeeds and the submit raises,
  the body answers with code \<open>VISIT_CREATION_FAILED\<close> and status 400 and the farmer
  document is still stored.
\<close>

lemma body_failed_visit_keeps_created_farmer:
  assumes "verify_dp_token env = Inr (Inr employee)"
    and "farmer_create_detail = Some d" and "d \<noteq> []"
    and "fflds = dict_merge [(''doctype'', ''Farmer Details''), (''registered_by'', employee)] d"
    and "check_insert env fflds = None"
    and "farmer = \<lparr>doc_name = name_doc env st fflds, doc_fields = fflds, docstatus = 0\<rparr>"
    and "st1 = st\<lparr>documents := documents st @ [farmer]\<rparr>"
    and "\<not> has_key ''visit_image'' vtd"
    and "vflds = dict_merge [(''doctype'', ''Visit Tracker''), (''farmer'', doc_name farmer),
                             (''visited_by'', employee)] vtd"
    and "check_insert env vflds \<noteq> None
         \<or> check_submit env \<lparr>doc_name = name_doc env st1 vflds, doc_fields = vflds,
                               docstatus = 0\<rparr> \<noteq> None"
    and "create_farmer_visit_body env st farmer_name farmer_create_detail vtd = (st', res)"
  shows "e_code res = ''VISIT_CREATION_FAILED'' \<and> e_http_status_code res = 400
       \<and> \<not> e_success res \<and> e_status res = ''error''
       \<and> http_status_code st' = Some 400
       \<and> farmer \<in> set (documents st')"
proof -
  have ins: "insert_doc env st fflds = Inr (st1, farmer)"
    using assms(5,6,7) by (simp add: insert_doc_def Let_def)
  have run: "create_farmer_visit_body env st farmer_name farmer_create_detail vtd
      = create_visit env st1 employee (doc_name farmer) vtd"
    using assms(1,2,3,8) ins
    by (simp add: create_farmer_visit_body_def image_then_visit_def Let_def
        flip: assms(4))
  with assms(11) have res: "st' = fst (create_visit env st1 employee (doc_name farmer) vtd)"
    "res = snd (create_visit env st1 employee (doc_name farmer) vtd)"
    by simp_all
  have codes: "e_code res = ''VISIT_CREATION_FAILED'' \<and> e_http_status_code res = 400
      \<and> \<not> e_success res \<and> e_status res = ''error'' \<and> http_status_code st' = Some 400
      \<and> set (documents st1) \<subseteq> set (documents st')"
    using create_visit_failed [OF assms(10) assms(9)] unfolding res by simp
  moreover have "farmer \<in> set (documents st1)"
    using assms(7) by simp
  ultimately show ?thesis by blast
qed

lemma demo_body_run:
  "create_farmer_visit_body demo_visit_env empty_site None (Some [(''farmer_name'', ''Ravi'')])
     [(''village'', ''V1'')]
   = (\<lparr>documents = [\<lparr>doc_name = ''FARMER-1'',
                       doc_fields = [(''doctype'', ''Farmer Details''),
                                     (''registered_by'', ''EMP-1''), (''farmer_name'', ''Ravi'')],
                       docstatus = 0\<rparr>],
       http_status_code = Some 400\<rparr>,
      \<lparr>e_success = False, e_status = ''error'',
       e_message = ''Failed to create visit: purpose is mandatory'',
       e_code = ''VISIT_CREATION_FAILED'', e_data = None, e_http_status_code = 400\<rparr>)"
  by code_simp

text \<open>
  C9, at a failing input. A request that gives \<open>farmer_create_detail\<close> and a visit the
  framework refuses: the body, run on it, would store the farmer and answer
  \<open>VISIT_CREATION_FAILED\<close> with status 400; but the parameter list of the \<open>def\<close> does
  not compile, so the request ends in the SyntaxError of the import, with no envelope and
  nothing stored.
\<close>

theorem create_farmer_visit_does_not_compile:
  "\<not> params_compile create_farmer_visit_params
   \<and> create_farmer_visit demo_visit_env empty_site None (Some [(''farmer_name'', ''Ravi'')])
        [(''village'', ''V1'')] = Inl SyntaxError
   \<and> e_code (snd (create_farmer_visit_body demo_visit_env empty_site None
                     (Some [(''farmer_name'', ''Ravi'')]) [(''village'', ''V1'')]))
       = ''VISIT_CREATION_FAILED''
   \<and> e_http_status_code (snd (create_farmer_visit_body demo_visit_env empty_site None
                     (Some [(''farmer_name'', ''Ravi'')]) [(''village'', ''V1'')])) = 400
   \<and> map doc_name (documents (fst (create_farmer_visit_body demo_visit_env empty_site None
                     (Some [(''farmer_name'', ''Ravi'')]) [(''village'', ''V1'')])))
       = [''FARMER-1'']"
  by (simp add: create_farmer_visit_never_runs create_farmer_visit_refused demo_body_run)


end
